theory Spec2Isabelle
  imports Complex_Main
begin

section \<open>JavaScript values\<close>

text \<open>
  The program \<^verbatim>\<open>src/create-embeddings-store.js\<close> is one function, \<^verbatim>\<open>main\<close>. It reads
  a JSON array of test cases, and for each of them posts a prompt to an embedding API, reads
  the JSON body of the answer, and inserts a document into a MongoDB collection. Everything it
  handles is a value parsed from JSON, so the model starts with those values.

  A finite number is an exact rational here: the rounding of IEEE doubles is not modelled.
  The three special values are kept, because the division of line 152 can produce them.
\<close>

datatype number = Fin rat | PosInf | NegInf | NaN

datatype jsval =
    JUndefined
  | JNull
  | JBool bool
  | JNum number
  | JStr string
  | JArr "jsval list"
  | JObj "(string \<times> jsval) list"

text \<open>
  What a \<^verbatim>\<open>throw\<close> carries. \<open>TypeError\<close> is raised by the language itself (a property
  read on \<^verbatim>\<open>undefined\<close>, a call of something that is no function, an object with no
  primitive value). \<open>ApiError\<close> is the \<^verbatim>\<open>new Error\<close> of line 83. The other three are what
  the two libraries reject with: an axios error with a response (a status outside 2xx),
  an axios error with a request but no response, and a failure of the MongoDB driver.
\<close>

datatype error =
    TypeError
  | ApiError string
  | HttpError nat jsval
  | NoResponse
  | WriteError

definition and_then :: "'e + 'a \<Rightarrow> ('a \<Rightarrow> 'e + 'b) \<Rightarrow> 'e + 'b" where
  "and_then m k = (case m of Inl e \<Rightarrow> Inl e | Inr x \<Rightarrow> k x)"

subsection \<open>Arithmetic\<close>

fun num_add :: "number \<Rightarrow> number \<Rightarrow> number" where
  "num_add NaN y = NaN"
| "num_add x NaN = NaN"
| "num_add PosInf NegInf = NaN"
| "num_add NegInf PosInf = NaN"
| "num_add PosInf y = PosInf"
| "num_add x PosInf = PosInf"
| "num_add NegInf y = NegInf"
| "num_add x NegInf = NegInf"
| "num_add (Fin a) (Fin b) = Fin (a + b)"

text \<open>
  \<^verbatim>\<open>x / xs.length\<close>: the divisor is the length of an array, a non-negative integer. Division
  never throws in JavaScript; \<^verbatim>\<open>0 / 0\<close> is \<^verbatim>\<open>NaN\<close> and \<^verbatim>\<open>x / 0\<close> is an infinity.
\<close>

fun div_by_length :: "number \<Rightarrow> nat \<Rightarrow> number" where
  "div_by_length NaN n = NaN"
| "div_by_length PosInf n = PosInf"
| "div_by_length NegInf n = NegInf"
| "div_by_length (Fin a) n =
     (if n = 0 then (if a = 0 then NaN else if 0 < a then PosInf else NegInf)
      else Fin (a / of_nat n))"

fun num_le :: "number \<Rightarrow> number \<Rightarrow> bool" where
  "num_le NaN y = False"
| "num_le x NaN = False"
| "num_le NegInf y = True"
| "num_le x PosInf = True"
| "num_le PosInf y = False"
| "num_le x NegInf = False"
| "num_le (Fin a) (Fin b) = (a \<le> b)"

subsection \<open>Property reads, truthiness, conversion to string\<close>

fun lookup :: "(string \<times> 'v) list \<Rightarrow> string \<Rightarrow> 'v option" where
  "lookup [] k = None"
| "lookup ((k', v) # kvs) k = (if k' = k then Some v else lookup kvs k)"

text \<open>
  \<^verbatim>\<open>v.k\<close> and \<^verbatim>\<open>v[0]\<close>. Reading a property of \<^verbatim>\<open>undefined\<close> or \<^verbatim>\<open>null\<close> throws; an object
  answers with its own property or \<^verbatim>\<open>undefined\<close>; an array and a string have \<^verbatim>\<open>length\<close>
  and the element \<^verbatim>\<open>0\<close>; numbers and booleans have none of the properties read here. The
  function is meant for the names the program reads (\<^verbatim>\<open>id\<close>, \<^verbatim>\<open>module\<close>, \<^verbatim>\<open>title\<close>,
  \<^verbatim>\<open>description\<close>, \<^verbatim>\<open>steps\<close>, \<^verbatim>\<open>expectedResults\<close>, \<^verbatim>\<open>status\<close>, \<^verbatim>\<open>message\<close>, \<^verbatim>\<open>data\<close>,
  \<^verbatim>\<open>0\<close>, \<^verbatim>\<open>embedding\<close>, \<^verbatim>\<open>cost\<close>, \<^verbatim>\<open>usage\<close>, \<^verbatim>\<open>total_tokens\<close>, \<^verbatim>\<open>model\<close>, \<^verbatim>\<open>length\<close>): none
  of them is inherited from a built-in prototype.
\<close>

fun get :: "jsval \<Rightarrow> string \<Rightarrow> error + jsval" where
  "get JUndefined k = Inl TypeError"
| "get JNull k = Inl TypeError"
| "get (JObj kvs) k = Inr (case lookup kvs k of None \<Rightarrow> JUndefined | Some v \<Rightarrow> v)"
| "get (JArr xs) k =
     Inr (if k = ''length'' then JNum (Fin (of_nat (length xs)))
          else if k = ''0'' \<and> xs \<noteq> [] then hd xs
          else JUndefined)"
| "get (JStr s) k =
     Inr (if k = ''length'' then JNum (Fin (of_nat (length s)))
          else if k = ''0'' \<and> s \<noteq> [] then JStr [hd s]
          else JUndefined)"
| "get (JBool b) k = Inr JUndefined"
| "get (JNum n) k = Inr JUndefined"

text \<open>\<^verbatim>\<open>v?.k\<close>: \<^verbatim>\<open>undefined\<close> when \<open>v\<close> is \<^verbatim>\<open>undefined\<close> or \<^verbatim>\<open>null\<close>, never a throw.\<close>

definition get_opt :: "jsval \<Rightarrow> string \<Rightarrow> error + jsval" where
  "get_opt v k = (if v = JUndefined \<or> v = JNull then Inr JUndefined else get v k)"

fun truthy :: "jsval \<Rightarrow> bool" where
  "truthy JUndefined = False"
| "truthy JNull = False"
| "truthy (JBool b) = b"
| "truthy (JNum n) = (n \<noteq> Fin 0 \<and> n \<noteq> NaN)"
| "truthy (JStr s) = (s \<noteq> [])"
| "truthy (JArr xs) = True"
| "truthy (JObj kvs) = True"

text \<open>\<^verbatim>\<open>a || b\<close>\<close>

definition js_or :: "jsval \<Rightarrow> jsval \<Rightarrow> jsval" where
  "js_or a b = (if truthy a then a else b)"

text \<open>
  The conversion a template literal applies to each \<^verbatim>\<open>${...}\<close>. The text of a number is
  the runtime's \<^verbatim>\<open>Number::toString\<close>, which is no code of this repository: it is the
  parameter \<open>f\<close>. An array is joined with commas, \<^verbatim>\<open>undefined\<close> and \<^verbatim>\<open>null\<close> elements giving
  the empty string. A parsed JSON object is \<^verbatim>\<open>[object Object]\<close>, unless it has an own property
  \<^verbatim>\<open>toString\<close>: that one is no function, the inherited \<^verbatim>\<open>valueOf\<close> returns the object, and
  the conversion throws a TypeError.
\<close>

fun to_string :: "(number \<Rightarrow> string) \<Rightarrow> jsval \<Rightarrow> error + string"
  and join :: "(number \<Rightarrow> string) \<Rightarrow> jsval list \<Rightarrow> error + string" where
  "to_string f JUndefined = Inr ''undefined''"
| "to_string f JNull = Inr ''null''"
| "to_string f (JBool b) = Inr (if b then ''true'' else ''false'')"
| "to_string f (JNum n) = Inr (f n)"
| "to_string f (JStr s) = Inr s"
| "to_string f (JArr xs) = join f xs"
| "to_string f (JObj kvs) =
     (if lookup kvs ''toString'' = None then Inr ''[object Object]'' else Inl TypeError)"
| "join f [] = Inr []"
| "join f (x # xs) =
     (case (if x = JUndefined \<or> x = JNull then Inr [] else to_string f x) of
        Inl e \<Rightarrow> Inl e
      | Inr s \<Rightarrow>
          (case xs of
             [] \<Rightarrow> Inr s
           | y # ys \<Rightarrow> (case join f xs of Inl e \<Rightarrow> Inl e | Inr r \<Rightarrow> Inr (s @ '','' @ r))))"

text \<open>
  \<^verbatim>\<open>a + b\<close>. Both operands are made primitive (an array or object through its string); if
  one of them is then a string the two are concatenated, otherwise they are added as numbers.
\<close>

definition to_primitive :: "(number \<Rightarrow> string) \<Rightarrow> jsval \<Rightarrow> error + jsval" where
  "to_primitive f v =
     (case v of
        JArr xs \<Rightarrow> and_then (to_string f v) (\<lambda>s. Inr (JStr s))
      | JObj kvs \<Rightarrow> and_then (to_string f v) (\<lambda>s. Inr (JStr s))
      | _ \<Rightarrow> Inr v)"

fun is_string :: "jsval \<Rightarrow> bool" where
  "is_string (JStr s) = True"
| "is_string v = False"

text \<open>
  \<^verbatim>\<open>ToNumber\<close> of a primitive that is no string. (A string operand makes \<^verbatim>\<open>+\<close> concatenate,
  so the numeric reading of a string is never asked for.)
\<close>

fun to_number :: "jsval \<Rightarrow> number option" where
  "to_number JUndefined = Some NaN"
| "to_number JNull = Some (Fin 0)"
| "to_number (JBool b) = Some (Fin (if b then 1 else 0))"
| "to_number (JNum n) = Some n"
| "to_number v = None"

definition js_add :: "(number \<Rightarrow> string) \<Rightarrow> jsval \<Rightarrow> jsval \<Rightarrow> error + jsval" where
  "js_add f a b =
     and_then (to_primitive f a) (\<lambda>pa.
     and_then (to_primitive f b) (\<lambda>pb.
       if is_string pa \<or> is_string pb
       then and_then (to_string f pa) (\<lambda>sa.
            and_then (to_string f pb) (\<lambda>sb. Inr (JStr (sa @ sb))))
       else (case (to_number pa, to_number pb) of
               (Some x, Some y) \<Rightarrow> Inr (JNum (num_add x y))
             | _ \<Rightarrow> Inl TypeError)))"

text \<open>
  \<^verbatim>\<open>s.substring(a, b)\<close>: only a string has the method; on anything else the call throws.
\<close>

fun substring :: "jsval \<Rightarrow> nat \<Rightarrow> nat \<Rightarrow> error + string" where
  "substring (JStr s) a b = Inr (take (max a b - min a b) (drop (min a b) s))"
| "substring v a b = Inl TypeError"

text \<open>\<^verbatim>\<open>x.toFixed(6)\<close>: only a number has the method.\<close>

fun toFixed :: "jsval \<Rightarrow> error + number" where
  "toFixed (JNum n) = Inr n"
| "toFixed v = Inl TypeError"

section \<open>The program\<close>

subsection \<open>Documents, totals, and the outside world\<close>

text \<open>
  The document of lines 101 to 111 holds the values of the test case, and one value that is
  no JSON: the \<^verbatim>\<open>Date\<close> of \<^verbatim>\<open>createdAt\<close>, kept as the clock reading it was made from.
\<close>

datatype docval = Plain jsval | Date nat

type_synonym doc = "(string \<times> docval) list"

text \<open>The decimal text of an array index, which is the name of the property.\<close>

function show_nat :: "nat \<Rightarrow> string" where
  "show_nat n =
     (if n < 10 then [char_of (48 + n)]
      else show_nat (n div 10) @ [char_of (48 + n mod 10)])"
  by pat_completeness auto
termination
  by (relation "measure id") auto

text \<open>
  \<^verbatim>\<open>{...v}\<close> copies the own properties of an object; an array and a string give their
  elements under their indices; \<^verbatim>\<open>undefined\<close>, \<^verbatim>\<open>null\<close>, numbers and booleans have none.
\<close>

fun spread :: "jsval \<Rightarrow> doc" where
  "spread (JObj kvs) = map (\<lambda>(k, v). (k, Plain v)) kvs"
| "spread (JArr xs) = map (\<lambda>(i, v). (show_nat i, Plain v)) (enumerate 0 xs)"
| "spread (JStr s) = map (\<lambda>(i, c). (show_nat i, Plain (JStr [c]))) (enumerate 0 s)"
| "spread v = []"

text \<open>
  A property of an object literal, \<^verbatim>\<open>k: v\<close>, after a spread: an existing property keeps its
  place and takes the new value, a new one goes last.
\<close>

definition put :: "string \<Rightarrow> docval \<Rightarrow> doc \<Rightarrow> doc" where
  "put k v d =
     (if lookup d k = None then d @ [(k, v)]
      else map (\<lambda>(k', v'). if k' = k then (k', v) else (k', v')) d)"

text \<open>
  The variables of \<^verbatim>\<open>main\<close> that the loop changes (lines 44 and 45), and the documents that
  \<^verbatim>\<open>insertOne\<close> has accepted during the run, in the order of their insertion.
\<close>

record state =
  totalCost :: number
  totalTokens :: jsval
  collection :: "doc list"

text \<open>
  What axios resolves with, and what the loop body meets outside the program while it handles
  one test case: the answer of \<^verbatim>\<open>axios.post\<close> to the prompt (a response when the HTTP status
  is 2xx, a rejection otherwise), the clock read by \<^verbatim>\<open>new Date()\<close>, and the answer of
  \<^verbatim>\<open>collection.insertOne\<close> to the document (the inserted id, or a rejection).
\<close>

record response =
  status :: nat
  data :: jsval

record world =
  post :: "string \<Rightarrow> error + response"
  now :: nat
  insertOne :: "doc \<Rightarrow> error + jsval"

text \<open>What lines 86 to 88 and 106 take out of an accepted response.\<close>

record embedded =
  vector :: jsval
  model :: jsval
  cost :: number
  tokens :: jsval

subsection \<open>The loop body\<close>

text \<open>
  Line 48, the first statement of the body and outside its \<^verbatim>\<open>try\<close>: the log line needs
  the text of \<^verbatim>\<open>testcase.id\<close> and the first 50 characters of \<^verbatim>\<open>testcase.description\<close>.
\<close>

definition announce :: "(number \<Rightarrow> string) \<Rightarrow> jsval \<Rightarrow> error + string" where
  "announce f testcase =
     and_then (get testcase ''id'') (\<lambda>i.
     and_then (to_string f i) (\<lambda>si.
     and_then (get testcase ''description'') (\<lambda>d.
     and_then (substring d 0 50) (\<lambda>sd.
       Inr (''Processing: '' @ si @ '' - '' @ sd @ ''...'')))))"

text \<open>Lines 52 to 59: the prompt, a template literal over six properties of the test case.\<close>

definition inputText :: "(number \<Rightarrow> string) \<Rightarrow> jsval \<Rightarrow> error + string" where
  "inputText f testcase =
     and_then (get testcase ''id'') (\<lambda>v1. and_then (to_string f v1) (\<lambda>s1.
     and_then (get testcase ''module'') (\<lambda>v2. and_then (to_string f v2) (\<lambda>s2.
     and_then (get testcase ''title'') (\<lambda>v3. and_then (to_string f v3) (\<lambda>s3.
     and_then (get testcase ''description'') (\<lambda>v4. and_then (to_string f v4) (\<lambda>s4.
     and_then (get testcase ''steps'') (\<lambda>v5. and_then (to_string f v5) (\<lambda>s5.
     and_then (get testcase ''expectedResults'') (\<lambda>v6. and_then (to_string f v6) (\<lambda>s6.
       Inr (''\<newline>          ID: '' @ s1 @
            ''\<newline>          Module: '' @ s2 @
            ''\<newline>          Title: '' @ s3 @
            ''\<newline>          Description: '' @ s4 @
            ''\<newline>          Steps: '' @ s5 @
            ''\<newline>          Expected Result: '' @ s6 @
            ''\<newline>        '')))))))))))))"

text \<open>
  Lines 76 to 84, on the body \<open>d\<close> of the response: two log lines (which convert
  \<^verbatim>\<open>d.status\<close> and \<^verbatim>\<open>d.message || 'No message'\<close> to text), then the test of line 81, which
  throws unless \<^verbatim>\<open>d.status\<close> is the number 200.
\<close>

definition check_status :: "(number \<Rightarrow> string) \<Rightarrow> jsval \<Rightarrow> error + unit" where
  "check_status f d =
     and_then (get d ''status'') (\<lambda>st.
     and_then (to_string f st) (\<lambda>_.
     and_then (get d ''message'') (\<lambda>msg.
     and_then (to_string f (js_or msg (JStr ''No message''))) (\<lambda>_.
       if st \<noteq> JNum (Fin 200)
       then and_then (to_string f msg) (\<lambda>sm. Inl (ApiError (''Testleaf API error: '' @ sm)))
       else Inr ()))))"

text \<open>
  Lines 86 to 95: the vector, the cost and the token count are read from the body, and five
  log lines convert \<^verbatim>\<open>d.model\<close>, the cost (\<^verbatim>\<open>toFixed\<close>), the token count and
  \<^verbatim>\<open>vector?.length || 'Unknown'\<close> to text.
\<close>

definition read_embedding :: "(number \<Rightarrow> string) \<Rightarrow> jsval \<Rightarrow> error + embedded" where
  "read_embedding f d =
     and_then (get d ''data'') (\<lambda>dd.
     and_then (get dd ''0'') (\<lambda>d0.
     and_then (get d0 ''embedding'') (\<lambda>vec.
     and_then (get d ''cost'') (\<lambda>c.
     and_then (get d ''usage'') (\<lambda>u.
     and_then (get_opt u ''total_tokens'') (\<lambda>tt.
     and_then (get d ''model'') (\<lambda>m.
     and_then (to_string f m) (\<lambda>_.
     and_then (toFixed (js_or c (JNum (Fin 0)))) (\<lambda>n.
     and_then (to_string f (js_or tt (JNum (Fin 0)))) (\<lambda>_.
     and_then (get_opt vec ''length'') (\<lambda>len.
     and_then (to_string f (js_or len (JStr ''Unknown''))) (\<lambda>_.
       Inr \<lparr>vector = vec, model = m, cost = n,
            tokens = js_or tt (JNum (Fin 0))\<rparr>))))))))))))"

text \<open>Lines 52 to 95 together: everything between the \<^verbatim>\<open>try\<close> and the two additions.\<close>

definition embed :: "(number \<Rightarrow> string) \<Rightarrow> world \<Rightarrow> jsval \<Rightarrow> error + embedded" where
  "embed f w testcase =
     and_then (inputText f testcase) (\<lambda>txt.
     and_then (post w txt) (\<lambda>r.
     and_then (check_status f (data r)) (\<lambda>_.
       read_embedding f (data r))))"

text \<open>Lines 101 to 111.\<close>

definition build_doc :: "jsval \<Rightarrow> embedded \<Rightarrow> nat \<Rightarrow> doc" where
  "build_doc testcase e t =
     put ''embeddingMetadata''
       (Plain (JObj [(''model'', model e), (''cost'', JNum (cost e)),
                     (''tokens'', tokens e), (''apiSource'', JStr ''testleaf'')]))
       (put ''createdAt'' (Date t)
          (put ''embedding'' (Plain (vector e)) (spread testcase)))"

text \<open>
  The \<^verbatim>\<open>try\<close> block, lines 50 to 125. A throw leaves with the error and with the variables
  as they are at that moment (\<open>Inl\<close>). After a successful insertion the block only logs
  and waits: that changes no variable, and a throw there would be caught with the variables
  as the insertion left them.
\<close>

definition try_block ::
  "(number \<Rightarrow> string) \<Rightarrow> world \<Rightarrow> jsval \<Rightarrow> state \<Rightarrow> error \<times> state + state" where
  "try_block f w testcase s =
     (case embed f w testcase of
        Inl err \<Rightarrow> Inl (err, s)
      | Inr e \<Rightarrow>
          (let s1 = s\<lparr>totalCost := num_add (totalCost s) (cost e)\<rparr> in
           case js_add f (totalTokens s1) (tokens e) of
             Inl err \<Rightarrow> Inl (err, s1)
           | Inr t \<Rightarrow>
               (let s2 = s1\<lparr>totalTokens := t\<rparr>;
                    doc = build_doc testcase e (now w) in
                case insertOne w doc of
                  Inl err \<Rightarrow> Inl (err, s2)
                | Inr _ \<Rightarrow> Inr (s2\<lparr>collection := collection s2 @ [doc]\<rparr>))))"

text \<open>
  One turn of the loop, lines 47 to 146. A throw of line 48 leaves the loop (\<open>Inl\<close>). A
  throw inside the \<^verbatim>\<open>try\<close> is caught at line 126: the handler logs (it reads
  \<^verbatim>\<open>testcase.id\<close> again, which line 48 has already converted, and properties of the error)
  and the loop goes on with the variables as the throw left them.
\<close>

definition process_record ::
  "(number \<Rightarrow> string) \<Rightarrow> jsval \<times> world \<Rightarrow> state \<Rightarrow> error + state" where
  "process_record f r s =
     (case announce f (fst r) of
        Inl err \<Rightarrow> Inl err
      | Inr _ \<Rightarrow>
          (case try_block f (snd r) (fst r) s of
             Inl (err, s') \<Rightarrow> Inr s'
           | Inr s' \<Rightarrow> Inr s'))"

subsection \<open>The loop and the summary\<close>

text \<open>
  The \<^verbatim>\<open>for ... of\<close> of line 47 over the loaded array; each test case comes with the world
  its turn meets. A throw that leaves the body ends the loop, with the variables and the
  collection as they are.
\<close>

fun loop ::
  "(number \<Rightarrow> string) \<Rightarrow> (jsval \<times> world) list \<Rightarrow> state \<Rightarrow> error \<times> state + state" where
  "loop f [] s = Inr s"
| "loop f (r # rs) s =
     (case process_record f r s of
        Inl err \<Rightarrow> Inl (err, s)
      | Inr s' \<Rightarrow> loop f rs s')"

text \<open>
  What a run reports at lines 149 to 152 (total cost, total tokens, the divisor and the
  average cost per test case), or, when a throw reached the \<^verbatim>\<open>catch\<close> of line 154, the error
  logged there.
\<close>

datatype report = Summary number jsval nat number | Failed error

definition initial :: state where
  "initial = \<lparr>totalCost = Fin 0, totalTokens = JNum (Fin 0), collection = []\<rparr>"

text \<open>
  \<^verbatim>\<open>main\<close> from line 44 on, for a batch that was loaded: the report and the documents
  inserted.
\<close>

definition main :: "(number \<Rightarrow> string) \<Rightarrow> (jsval \<times> world) list \<Rightarrow> report \<times> doc list" where
  "main f testcases =
     (case loop f testcases initial of
        Inl (err, s) \<Rightarrow> (Failed err, collection s)
      | Inr s \<Rightarrow>
          (Summary (totalCost s) (totalTokens s) (length testcases)
             (div_by_length (totalCost s) (length testcases)),
           collection s))"

section \<open>Vocabulary of the properties\<close>

text \<open>A value that is no array and no object.\<close>

fun primitive :: "jsval \<Rightarrow> bool" where
  "primitive (JArr xs) = False"
| "primitive (JObj kvs) = False"
| "primitive v = True"

text \<open>
  A record of the batch with its world \<open>r\<close> gets past line 48; it gets through lines 52 to
  95 as well (the embedding stage); the document line 114 passes to \<^verbatim>\<open>insertOne\<close>; the
  insertion of that document is accepted.
\<close>

definition reaches_try :: "(number \<Rightarrow> string) \<Rightarrow> jsval \<times> world \<Rightarrow> bool" where
  "reaches_try f r = (\<not> isl (announce f (fst r)))"

definition passes_embedding :: "(number \<Rightarrow> string) \<Rightarrow> jsval \<times> world \<Rightarrow> bool" where
  "passes_embedding f r = (reaches_try f r \<and> \<not> isl (embed f (snd r) (fst r)))"

definition document :: "(number \<Rightarrow> string) \<Rightarrow> jsval \<times> world \<Rightarrow> doc option" where
  "document f r =
     (case embed f (snd r) (fst r) of
        Inl err \<Rightarrow> None
      | Inr e \<Rightarrow> Some (build_doc (fst r) e (now (snd r))))"

definition write_succeeds :: "(number \<Rightarrow> string) \<Rightarrow> jsval \<times> world \<Rightarrow> bool" where
  "write_succeeds f r =
     (case document f r of None \<Rightarrow> False | Some d \<Rightarrow> \<not> isl (insertOne (snd r) d))"

definition stored :: "(number \<Rightarrow> string) \<Rightarrow> jsval \<times> world \<Rightarrow> bool" where
  "stored f r = (passes_embedding f r \<and> write_succeeds f r)"

text \<open>
  \<^verbatim>\<open>totalTokens += tokens\<close> as line 98 leaves the variable: the sum, or the old value when
  the addition throws.
\<close>

definition add_tokens :: "(number \<Rightarrow> string) \<Rightarrow> jsval \<Rightarrow> jsval \<Rightarrow> jsval" where
  "add_tokens f a b = (case js_add f a b of Inl err \<Rightarrow> a | Inr t \<Rightarrow> t)"

text \<open>The variables when the loop has ended, however it ended.\<close>

fun state_of :: "error \<times> state + state \<Rightarrow> state" where
  "state_of (Inl (err, s)) = s"
| "state_of (Inr s) = s"

text \<open>
  The order of numbers (\<^verbatim>\<open>NaN\<close> is comparable with nothing), read on token totals that
  are numbers, and the assumption of non-negative charges: what lines 87 and 88 read from an
  accepted response is a cost that is at least 0 and a token count that is a number at
  least 0.
\<close>

definition nonneg :: "number \<Rightarrow> bool" where
  "nonneg n = num_le (Fin 0) n"

fun tokens_le :: "jsval \<Rightarrow> jsval \<Rightarrow> bool" where
  "tokens_le (JNum x) (JNum y) = num_le x y"
| "tokens_le a b = False"

definition charges_nonneg :: "(number \<Rightarrow> string) \<Rightarrow> jsval \<times> world \<Rightarrow> bool" where
  "charges_nonneg f r =
     (case embed f (snd r) (fst r) of
        Inl err \<Rightarrow> True
      | Inr e \<Rightarrow> nonneg (cost e) \<and> tokens_le (JNum (Fin 0)) (tokens e))"

text \<open>
  Conditions on what the loop is given. A value converts to text when no object in it has
  an own \<^verbatim>\<open>toString\<close>. A test case is well formed when its \<^verbatim>\<open>description\<close> is a string
  and the other five properties of the prompt convert to text. The body of a response
  conforms to the interface of the embedding API when it has the shape
  \<^verbatim>\<open>{ status: 200, message?: string, model: string, data: [{ embedding: [...] }],
  cost?: number, usage?: { total_tokens?: number } }\<close>. The call of a record succeeds when
  the post of its prompt is answered with a 2xx status and a conforming body; its write is
  accepted when \<^verbatim>\<open>insertOne\<close> resolves for the document the record passes to it.
\<close>

definition read :: "jsval \<Rightarrow> string \<Rightarrow> jsval" where
  "read v k = (case get v k of Inl err \<Rightarrow> JUndefined | Inr x \<Rightarrow> x)"

fun is_number :: "jsval \<Rightarrow> bool" where
  "is_number (JNum n) = True"
| "is_number v = False"

fun is_array :: "jsval \<Rightarrow> bool" where
  "is_array (JArr xs) = True"
| "is_array v = False"

fun is_object :: "jsval \<Rightarrow> bool" where
  "is_object (JObj kvs) = True"
| "is_object v = False"

definition optional :: "(jsval \<Rightarrow> bool) \<Rightarrow> jsval \<Rightarrow> bool" where
  "optional P v = (v = JUndefined \<or> P v)"

fun textual :: "jsval \<Rightarrow> bool" where
  "textual (JArr xs) = list_all textual xs"
| "textual (JObj kvs) = (lookup kvs ''toString'' = None)"
| "textual v = True"

definition well_formed :: "jsval \<Rightarrow> bool" where
  "well_formed tc =
     (is_string (read tc ''description'') \<and> textual (read tc ''id'') \<and>
      textual (read tc ''module'') \<and> textual (read tc ''title'') \<and>
      textual (read tc ''steps'') \<and> textual (read tc ''expectedResults''))"

definition usage_ok :: "jsval \<Rightarrow> bool" where
  "usage_ok u = (is_object u \<and> optional is_number (read u ''total_tokens''))"

definition conforms :: "jsval \<Rightarrow> bool" where
  "conforms d =
     (read d ''status'' = JNum (Fin 200) \<and>
      optional is_string (read d ''message'') \<and>
      is_string (read d ''model'') \<and>
      is_array (read d ''data'') \<and>
      is_object (read (read d ''data'') ''0'') \<and>
      is_array (read (read (read d ''data'') ''0'') ''embedding'') \<and>
      optional is_number (read d ''cost'') \<and>
      optional usage_ok (read d ''usage''))"

definition call_succeeds :: "(number \<Rightarrow> string) \<Rightarrow> jsval \<times> world \<Rightarrow> bool" where
  "call_succeeds f r =
     (case inputText f (fst r) of
        Inl err \<Rightarrow> False
      | Inr txt \<Rightarrow>
          (case post (snd r) txt of
             Inl err \<Rightarrow> False
           | Inr resp \<Rightarrow> 200 \<le> status resp \<and> status resp < 300 \<and> conforms (data resp)))"

definition accepts_write :: "(number \<Rightarrow> string) \<Rightarrow> jsval \<times> world \<Rightarrow> bool" where
  "accepts_write f r =
     (case document f r of None \<Rightarrow> True | Some d \<Rightarrow> \<not> isl (insertOne (snd r) d))"

subsection \<open>Sample data\<close>

text \<open>
  A stand-in for \<^verbatim>\<open>Number::toString\<close> in the examples: it is exact on integers (below
  \<^verbatim>\<open>1e21\<close>) and on the special values, and writes any other rational as a fraction.
\<close>

definition number_text :: "number \<Rightarrow> string" where
  "number_text n =
     (case n of
        NaN \<Rightarrow> ''NaN''
      | PosInf \<Rightarrow> ''Infinity''
      | NegInf \<Rightarrow> ''-Infinity''
      | Fin r \<Rightarrow>
          (let (p, q) = quotient_of r in
           (if p < 0 then ''-'' else []) @ show_nat (nat \<bar>p\<bar>) @
           (if q = 1 then [] else ''/'' @ show_nat (nat q))))"

definition tc1 :: jsval where
  "tc1 = JObj [(''id'', JStr ''TC-1''), (''module'', JStr ''Login''),
               (''title'', JStr ''Valid login''), (''description'', JStr ''User logs in''),
               (''steps'', JArr [JStr ''open'', JStr ''submit'']),
               (''expectedResults'', JStr ''Dashboard'')]"

definition tc2 :: jsval where
  "tc2 = JObj [(''id'', JStr ''TC-2''), (''description'', JStr ''Logout''),
               (''embedding'', JStr ''stale'')]"

definition tc_no_description :: jsval where
  "tc_no_description = JObj [(''id'', JStr ''TC-0''), (''title'', JStr ''Draft'')]"

definition body_ok :: jsval where
  "body_ok = JObj [(''status'', JNum (Fin 200)), (''message'', JStr ''ok''),
                   (''model'', JStr ''text-embedding-3-small''),
                   (''data'', JArr [JObj [(''embedding'', JArr [JNum (Fin 1), JNum (Fin 2)])]]),
                   (''cost'', JNum (Fin (1 / 10000))),
                   (''usage'', JObj [(''total_tokens'', JNum (Fin 42))])]"


definition body_rejected :: jsval where
  "body_rejected = JObj [(''status'', JNum (Fin 401)), (''message'', JStr ''bad token'')]"

definition e_ok :: embedded where
  "e_ok = \<lparr>vector = JArr [JNum (Fin 1), JNum (Fin 2)],
           model = JStr ''text-embedding-3-small'',
           cost = Fin (1 / 10000), tokens = JNum (Fin 42)\<rparr>"

definition w_ok :: world where
  "w_ok = \<lparr>post = (\<lambda>txt. Inr \<lparr>status = 200, data = body_ok\<rparr>), now = 1700000000000,
           insertOne = (\<lambda>d. Inr (JStr ''65f0''))\<rparr>"

definition w_write_fails :: world where
  "w_write_fails = w_ok\<lparr>insertOne := (\<lambda>d. Inl WriteError)\<rparr>"


definition w_rejected :: world where
  "w_rejected = w_ok\<lparr>post := (\<lambda>txt. Inr \<lparr>status = 200, data = body_rejected\<rparr>)\<rparr>"

definition body_string_cost :: jsval where
  "body_string_cost =
     JObj [(''status'', JNum (Fin 200)), (''message'', JStr ''ok''),
           (''model'', JStr ''text-embedding-3-small''),
           (''data'', JArr [JObj [(''embedding'', JArr [JNum (Fin 1), JNum (Fin 2)])]]),
           (''cost'', JStr ''0.5''),
           (''usage'', JObj [(''total_tokens'', JNum (Fin 42))])]"

definition w_string_cost :: world where
  "w_string_cost = w_ok\<lparr>post := (\<lambda>txt. Inr \<lparr>status = 200, data = body_string_cost\<rparr>)\<rparr>"

section \<open>Basic facts\<close>

lemma and_then_Inl [simp]: "and_then (Inl e) k = Inl e"
  by (simp add: and_then_def)

lemma and_then_Inr [simp]: "and_then (Inr x) k = k x"
  by (simp add: and_then_def)

lemma and_then_eq_Inr: "(and_then m k = Inr y) = (\<exists>x. m = Inr x \<and> k x = Inr y)"
  by (cases m) simp_all

lemma num_add_zero [simp]: "num_add x (Fin 0) = x"
  by (cases x) simp_all

subsection \<open>The token total stays a number or a string\<close>

lemma to_primitive_ok:
  "to_string f v = Inr s \<Longrightarrow>
   \<exists>p. to_primitive f v = Inr p \<and> primitive p \<and> to_string f p = Inr s"
  by (cases v) (simp_all add: to_primitive_def)

lemma to_primitive_primitive: "primitive v \<Longrightarrow> to_primitive f v = Inr v"
  by (cases v) (simp_all add: to_primitive_def)

lemma to_string_primitive: "primitive v \<Longrightarrow> \<exists>s. to_string f v = Inr s"
  by (cases v) simp_all

lemma to_number_primitive: "primitive v \<Longrightarrow> \<not> is_string v \<Longrightarrow> \<exists>n. to_number v = Some n"
  by (cases v) simp_all

lemma js_add_ok:
  assumes "primitive a" and "to_string f b = Inr sb"
  shows "\<exists>t. js_add f a b = Inr t \<and> primitive t"
proof -
  obtain p where p: "to_primitive f b = Inr p" "primitive p" "to_string f p = Inr sb"
    using to_primitive_ok [OF assms(2)] by blast
  obtain sa where sa: "to_string f a = Inr sa"
    using to_string_primitive [OF assms(1)] by blast
  show ?thesis
  proof (cases "is_string a \<or> is_string p")
    case True
    then show ?thesis
      using p sa assms(1) by (simp add: js_add_def to_primitive_primitive)
  next
    case False
    then obtain x y where "to_number a = Some x" "to_number p = Some y"
      using to_number_primitive assms(1) p(2) by blast
    then show ?thesis
      using False p assms(1) by (simp add: js_add_def to_primitive_primitive)
  qed
qed

lemma js_add_numbers [simp]: "js_add f (JNum a) (JNum b) = Inr (JNum (num_add a b))"
  by (simp add: js_add_def to_primitive_def)

lemma read_embedding_tokens:
  "read_embedding f d = Inr e \<Longrightarrow> \<exists>s. to_string f (tokens e) = Inr s"
  by (auto simp: read_embedding_def and_then_eq_Inr)

lemma embed_tokens: "embed f w tc = Inr e \<Longrightarrow> \<exists>s. to_string f (tokens e) = Inr s"
  by (auto simp: embed_def and_then_eq_Inr dest: read_embedding_tokens)

lemma tokens_added:
  assumes "primitive (totalTokens s)" and "embed f w tc = Inr e"
  shows "\<exists>t. js_add f (totalTokens s) (tokens e) = Inr t \<and> primitive t"
  using assms embed_tokens js_add_ok by blast

subsection \<open>What line 48 asks of a test case\<close>

lemma substring_string: "substring d a b = Inr s \<Longrightarrow> \<exists>x. d = JStr x"
  by (cases d) simp_all

lemma announce_object:
  "announce f tc = Inr a \<Longrightarrow>
   \<exists>kvs s. tc = JObj kvs \<and> lookup kvs ''description'' = Some (JStr s)"
  apply (auto simp: announce_def and_then_eq_Inr dest!: substring_string)
  apply (cases tc; auto split: if_splits option.splits)
  done

subsection \<open>The ways through one turn of the loop\<close>

lemma process_record_leaves:
  "announce f tc = Inl err \<Longrightarrow> process_record f (tc, w) s = Inl err"
  by (simp add: process_record_def)

lemma process_record_skips:
  "announce f tc = Inr a \<Longrightarrow> embed f w tc = Inl err \<Longrightarrow> process_record f (tc, w) s = Inr s"
  by (simp add: process_record_def try_block_def)

lemma process_record_write_fails:
  assumes "announce f tc = Inr a" and "embed f w tc = Inr e"
    and "js_add f (totalTokens s) (tokens e) = Inr t"
    and "insertOne w (build_doc tc e (now w)) = Inl err"
  shows "process_record f (tc, w) s =
         Inr (s\<lparr>totalCost := num_add (totalCost s) (cost e), totalTokens := t\<rparr>)"
  using assms by (simp add: process_record_def try_block_def)

lemma process_record_stores:
  assumes "announce f tc = Inr a" and "embed f w tc = Inr e"
    and "js_add f (totalTokens s) (tokens e) = Inr t"
    and "insertOne w (build_doc tc e (now w)) = Inr i"
  shows "process_record f (tc, w) s =
         Inr (s\<lparr>totalCost := num_add (totalCost s) (cost e), totalTokens := t,
                collection := collection s @ [build_doc tc e (now w)]\<rparr>)"
  using assms by (simp add: process_record_def try_block_def)

lemma process_record_spends:
  assumes "announce f tc = Inr a" and "embed f w tc = Inr e" and "primitive (totalTokens s)"
  shows "process_record f (tc, w) s =
         Inr (s\<lparr>totalCost := num_add (totalCost s) (cost e),
                totalTokens := add_tokens f (totalTokens s) (tokens e),
                collection := collection s @
                  (case insertOne w (build_doc tc e (now w)) of
                     Inl err \<Rightarrow> [] | Inr i \<Rightarrow> [build_doc tc e (now w)])\<rparr>)"
    and "primitive (add_tokens f (totalTokens s) (tokens e))"
proof -
  obtain t where t: "js_add f (totalTokens s) (tokens e) = Inr t" "primitive t"
    using tokens_added [OF assms(3,2)] by blast
  then show "primitive (add_tokens f (totalTokens s) (tokens e))"
    by (simp add: add_tokens_def)
  show "process_record f (tc, w) s =
         Inr (s\<lparr>totalCost := num_add (totalCost s) (cost e),
                totalTokens := add_tokens f (totalTokens s) (tokens e),
                collection := collection s @
                  (case insertOne w (build_doc tc e (now w)) of
                     Inl err \<Rightarrow> [] | Inr i \<Rightarrow> [build_doc tc e (now w)])\<rparr>)"
    using assms(1,2) t(1)
    by (cases "insertOne w (build_doc tc e (now w))")
      (simp_all add: process_record_def try_block_def add_tokens_def)
qed

lemma reaches_try_caught:
  assumes "reaches_try f r" and "primitive (totalTokens s)"
  shows "\<exists>s'. process_record f r s = Inr s' \<and> primitive (totalTokens s')"
proof -
  obtain tc w where r: "r = (tc, w)"
    by (cases r)
  from assms(1) r obtain a where a: "announce f tc = Inr a"
    by (cases "announce f tc") (simp_all add: reaches_try_def)
  show ?thesis
  proof (cases "embed f w tc")
    case (Inl err)
    then show ?thesis
      using process_record_skips [OF a Inl] assms(2) r by simp
  next
    case (Inr e)
    then show ?thesis
      using process_record_spends [OF a Inr assms(2)] r by simp
  qed
qed

lemma process_record_totals:
  assumes "process_record f r s = Inr s'"
  shows "(totalCost s' = totalCost s \<and> totalTokens s' = totalTokens s) \<or>
         (\<exists>e. embed f (snd r) (fst r) = Inr e \<and>
              totalCost s' = num_add (totalCost s) (cost e) \<and>
              totalTokens s' = add_tokens f (totalTokens s) (tokens e))"
  using assms
  by (auto simp: process_record_def try_block_def Let_def add_tokens_def
      split: sum.splits prod.splits)

lemma process_record_collection:
  assumes "process_record f (tc, w) s = Inr s'" and "collection s' \<noteq> collection s"
  shows "\<exists>e. embed f w tc = Inr e \<and> collection s' = collection s @ [build_doc tc e (now w)]"
  using assms
  by (auto simp: process_record_def try_block_def Let_def split: sum.splits prod.splits)

lemma loop_append:
  "loop f (xs @ ys) s = (case loop f xs s of Inl x \<Rightarrow> Inl x | Inr s' \<Rightarrow> loop f ys s')"
  by (induction xs arbitrary: s) (auto split: sum.splits)

subsection \<open>Properties of a document\<close>

lemma lookup_append:
  "lookup (xs @ ys) k = (case lookup xs k of None \<Rightarrow> lookup ys k | Some v \<Rightarrow> Some v)"
  by (induction xs) auto

lemma lookup_replace:
  "lookup (map (\<lambda>(k', v'). if k' = k then (k', v) else (k', v')) d) j =
   (if j = k then (if lookup d k = None then None else Some v) else lookup d j)"
  by (induction d) (auto split: if_splits)

lemma lookup_put: "lookup (put k v d) j = (if j = k then Some v else lookup d j)"
  by (auto simp: put_def lookup_append lookup_replace split: option.splits)

lemma lookup_spread:
  "lookup (map (\<lambda>(k, v). (k, Plain v)) kvs) k = map_option Plain (lookup kvs k)"
  by (induction kvs) auto

lemma build_doc_fields:
  "lookup (build_doc (JObj kvs) e t) k =
     (if k = ''embeddingMetadata'' then
        Some (Plain (JObj [(''model'', model e), (''cost'', JNum (cost e)),
                           (''tokens'', tokens e), (''apiSource'', JStr ''testleaf'')]))
      else if k = ''createdAt'' then Some (Date t)
      else if k = ''embedding'' then Some (Plain (vector e))
      else map_option Plain (lookup kvs k))"
  by (simp add: build_doc_def lookup_put lookup_spread)

subsection \<open>The order of numbers\<close>

lemma num_le_refl: "nonneg a \<Longrightarrow> num_le a a"
  by (cases a) (simp_all add: nonneg_def)

lemma num_le_trans: "num_le a b \<Longrightarrow> num_le b c \<Longrightarrow> num_le a c"
  by (cases a; cases b; cases c) simp_all

lemma num_add_nonneg:
  "nonneg a \<Longrightarrow> nonneg b \<Longrightarrow> nonneg (num_add a b) \<and> num_le a (num_add a b)"
  by (cases a; cases b) (simp_all add: nonneg_def)

lemma tokens_le_refl: "tokens_le (JNum (Fin 0)) a \<Longrightarrow> tokens_le a a"
  by (cases a) (simp_all add: num_le_refl nonneg_def)

lemma tokens_le_trans: "tokens_le a b \<Longrightarrow> tokens_le b c \<Longrightarrow> tokens_le a c"
  by (cases a; cases b; cases c) (auto intro: num_le_trans)

lemma add_tokens_nonneg:
  assumes "tokens_le (JNum (Fin 0)) a" and "tokens_le (JNum (Fin 0)) b"
  shows "tokens_le (JNum (Fin 0)) (add_tokens f a b) \<and> tokens_le a (add_tokens f a b)"
proof -
  from assms obtain x y where "a = JNum x" "b = JNum y" "nonneg x" "nonneg y"
    by (cases a; cases b) (simp_all add: nonneg_def)
  then show ?thesis
    using num_add_nonneg [of x y] by (simp add: add_tokens_def nonneg_def)
qed

subsection \<open>The sample data, evaluated\<close>

lemma announce_tc1: "announce f tc1 = Inr ''Processing: TC-1 - User logs in...''"
  by (simp add: announce_def tc1_def)

lemma embed_tc1_ok: "embed f w_ok tc1 = Inr e_ok"
  by (simp add: embed_def inputText_def check_status_def read_embedding_def js_or_def
      get_opt_def tc1_def w_ok_def body_ok_def e_ok_def)

lemma embed_tc1_write_fails: "embed f w_write_fails tc1 = Inr e_ok"
  by (simp add: embed_def inputText_def check_status_def read_embedding_def js_or_def
      get_opt_def tc1_def w_ok_def w_write_fails_def body_ok_def e_ok_def)

lemma w_ok_write: "insertOne w_ok d = Inr (JStr ''65f0'')"
  by (simp add: w_ok_def)

lemma w_write_fails_write: "insertOne w_write_fails d = Inl WriteError"
  by (simp add: w_ok_def w_write_fails_def)

lemma primitive_initial: "primitive (totalTokens initial)"
  by (simp add: initial_def)

lemma announce_tc2: "announce f tc2 = Inr ''Processing: TC-2 - Logout...''"
  by (simp add: announce_def tc2_def)

lemma embed_tc2_ok: "embed f w_ok tc2 = Inr e_ok"
  by (simp add: embed_def inputText_def check_status_def read_embedding_def js_or_def
      get_opt_def tc2_def w_ok_def body_ok_def e_ok_def)

lemma embed_tc1_rejected: "embed f w_rejected tc1 = Inl (ApiError ''Testleaf API error: bad token'')"
  by (simp add: embed_def inputText_def check_status_def js_or_def
      tc1_def w_ok_def w_rejected_def body_rejected_def)

lemma inputText_tc1:
  "inputText f tc1 = Inr
     (''\<newline>          ID: TC-1'' @
      ''\<newline>          Module: Login'' @
      ''\<newline>          Title: Valid login'' @
      ''\<newline>          Description: User logs in'' @
      ''\<newline>          Steps: open,submit'' @
      ''\<newline>          Expected Result: Dashboard'' @
      ''\<newline>        '')"
  by (simp add: inputText_def tc1_def)



lemma passes_write_fails: "passes_embedding f (tc1, w_write_fails)"
  by (simp add: passes_embedding_def reaches_try_def announce_tc1 embed_tc1_write_fails)

lemma not_passes_rejected: "\<not> passes_embedding f (tc1, w_rejected)"
  by (simp add: passes_embedding_def embed_tc1_rejected)

lemma passes_tc2: "passes_embedding f (tc2, w_ok)"
  by (simp add: passes_embedding_def reaches_try_def announce_tc2 embed_tc2_ok)

lemma reaches_write_fails: "reaches_try f (tc1, w_write_fails)"
  by (simp add: reaches_try_def announce_tc1)

lemma charges_tc1: "charges_nonneg f (tc1, w_ok)"
  by (simp add: charges_nonneg_def embed_tc1_ok e_ok_def nonneg_def)

lemma charges_tc2: "charges_nonneg f (tc2, w_ok)"
  by (simp add: charges_nonneg_def embed_tc2_ok e_ok_def nonneg_def)

lemma mixed_run:
  "loop f [(tc1, w_rejected), (tc1, w_write_fails), (tc2, w_ok)] initial =
   Inr \<lparr>totalCost = Fin (2 / 10000), totalTokens = JNum (Fin 84),
        collection = [build_doc tc2 e_ok (now w_ok)]\<rparr>"
  by (simp add: process_record_def try_block_def announce_tc1 announce_tc2 embed_tc1_rejected
      embed_tc1_write_fails embed_tc2_ok w_ok_write w_write_fails_write initial_def e_ok_def)

section \<open>The claims\<close>

subsection \<open>C1: a failed write and the totals\<close>

text \<open>
  C1, as stated, fails: the claim is that a record whose embedding succeeds and whose store
  write fails leaves the cost and token totals unchanged. The two additions are lines 97 and
  98, the write is line 114. For the sample record the embedding stage is passed, the write
  is rejected, and the totals have moved from 0 to the cost and the tokens of the response.
\<close>

theorem failed_write_totals_counterexample:
  "passes_embedding number_text (tc1, w_write_fails) \<and>
   \<not> write_succeeds number_text (tc1, w_write_fails) \<and>
   totalCost initial = Fin 0 \<and> totalTokens initial = JNum (Fin 0) \<and>
   process_record number_text (tc1, w_write_fails) initial =
     Inr \<lparr>totalCost = Fin (1 / 10000), totalTokens = JNum (Fin 42), collection = []\<rparr>"
  by (simp add: passes_embedding_def reaches_try_def write_succeeds_def document_def
      announce_tc1 embed_tc1_write_fails w_write_fails_write process_record_def try_block_def
      initial_def e_ok_def)

text \<open>
  C1, amended: for every record that gets through the embedding stage and whose store write
  fails, the cost and the tokens of the response have been added to the totals all the same
  (the additions come before the write), and no document is stored. The token total of a run
  is a number or a string, which is the first assumption.
\<close>

theorem totals_added_before_write:
  assumes "primitive (totalTokens s)"
    and "announce f tc = Inr a"
    and "embed f w tc = Inr e"
    and "insertOne w (build_doc tc e (now w)) = Inl err"
  shows "\<exists>t. js_add f (totalTokens s) (tokens e) = Inr t \<and>
             process_record f (tc, w) s =
             Inr (s\<lparr>totalCost := num_add (totalCost s) (cost e), totalTokens := t\<rparr>)"
proof -
  obtain t where t: "js_add f (totalTokens s) (tokens e) = Inr t"
    using tokens_added [OF assms(1,3)] by blast
  with process_record_write_fails [OF assms(2,3) t assms(4)] show ?thesis
    by blast
qed

text \<open>C1, amended, on the sample record: every assumption holds there.\<close>

theorem totals_added_before_write_witness:
  "primitive (totalTokens initial) \<and>
   announce number_text tc1 = Inr ''Processing: TC-1 - User logs in...'' \<and>
   embed number_text w_write_fails tc1 = Inr e_ok \<and>
   insertOne w_write_fails (build_doc tc1 e_ok (now w_write_fails)) = Inl WriteError \<and>
   process_record number_text (tc1, w_write_fails) initial =
     Inr (initial\<lparr>totalCost := Fin (1 / 10000), totalTokens := JNum (Fin 42)\<rparr>)"
  using totals_added_before_write [OF primitive_initial announce_tc1 embed_tc1_write_fails
      w_write_fails_write, of number_text]
  by (simp add: primitive_initial announce_tc1 embed_tc1_write_fails w_write_fails_write
      initial_def e_ok_def)

subsection \<open>C2: the empty batch\<close>

text \<open>
  C2: for the empty batch the run completes with zero cost and zero tokens, and the claim is
  that it reports an average of zero, the division being guarded. Line 152 divides by
  \<^verbatim>\<open>testcases.length\<close> with no guard: the run does complete and the totals are zero, but
  the average it reports is \<^verbatim>\<open>0 / 0\<close>, which is \<^verbatim>\<open>NaN\<close>.
\<close>

theorem empty_batch_average:
  "main f [] = (Summary (Fin 0) (JNum (Fin 0)) 0 NaN, [])"
  by (simp add: main_def initial_def)

subsection \<open>C3: every record is attempted\<close>

text \<open>
  C3: every record of the batch is attempted, no error of a single record leaving the loop
  whatever the shape of the record. Line 48 reads \<^verbatim>\<open>testcase.description.substring\<close>
  before the \<^verbatim>\<open>try\<close> of line 50 begins. In a batch of two whose first record has no
  \<^verbatim>\<open>description\<close>, the TypeError of line 48 ends the loop, the run reports the failure and no
  summary, and the second record is never attempted, although a run on it alone stores it
  and counts its cost.
\<close>

theorem throw_at_line_48_ends_loop:
  "main number_text [(tc_no_description, w_ok), (tc1, w_ok)] = (Failed TypeError, []) \<and>
   main number_text [(tc1, w_ok)] =
     (Summary (Fin (1 / 10000)) (JNum (Fin 42)) 1 (Fin (1 / 10000)),
      [build_doc tc1 e_ok (now w_ok)])"
  by (simp add: main_def initial_def process_record_def try_block_def announce_tc1
      embed_tc1_ok w_ok_write e_ok_def)
    (simp add: announce_def tc_no_description_def)

subsection \<open>C4: a batch in which everything succeeds\<close>

lemma stored_elims:
  assumes "stored f (tc, w)"
  obtains a e i where "announce f tc = Inr a" and "embed f w tc = Inr e"
    and "insertOne w (build_doc tc e (now w)) = Inr i"
    and "document f (tc, w) = Some (build_doc tc e (now w))"
proof -
  from assms obtain a where a: "announce f tc = Inr a"
    by (cases "announce f tc") (simp_all add: stored_def passes_embedding_def reaches_try_def)
  from assms obtain e where e: "embed f w tc = Inr e"
    by (cases "embed f w tc") (simp_all add: stored_def passes_embedding_def)
  from assms e obtain i where "insertOne w (build_doc tc e (now w)) = Inr i"
    by (cases "insertOne w (build_doc tc e (now w))")
      (simp_all add: stored_def write_succeeds_def document_def)
  with a e that show ?thesis
    by (simp add: document_def)
qed

lemma loop_all_stored:
  assumes "\<forall>r\<in>set rs. stored f r" and "primitive (totalTokens s)"
  shows "\<exists>t. loop f rs s = Inr t \<and> primitive (totalTokens t) \<and>
             map Some (collection t) = map Some (collection s) @ map (document f) rs"
  using assms
proof (induction rs arbitrary: s)
  case Nil
  then show ?case by simp
next
  case (Cons r rs)
  obtain tc w where r: "r = (tc, w)"
    by (cases r)
  from Cons.prems(1) r have "stored f (tc, w)"
    by simp
  then obtain a e i where a: "announce f tc = Inr a" and e: "embed f w tc = Inr e"
    and i: "insertOne w (build_doc tc e (now w)) = Inr i"
    and d: "document f (tc, w) = Some (build_doc tc e (now w))"
    by (rule stored_elims)
  obtain t where t: "js_add f (totalTokens s) (tokens e) = Inr t" "primitive t"
    using tokens_added [OF Cons.prems(2) e] by blast
  let ?s' = "s\<lparr>totalCost := num_add (totalCost s) (cost e), totalTokens := t,
                collection := collection s @ [build_doc tc e (now w)]\<rparr>"
  have step: "process_record f r s = Inr ?s'"
    using process_record_stores [OF a e t(1) i] r by simp
  have "\<forall>r\<in>set rs. stored f r"
    using Cons.prems(1) by simp
  moreover have "primitive (totalTokens ?s')"
    using t(2) by simp
  ultimately obtain u where u: "loop f rs ?s' = Inr u" "primitive (totalTokens u)"
    "map Some (collection u) = map Some (collection ?s') @ map (document f) rs"
    using Cons.IH by blast
  from step u d r show ?case
    by simp
qed

lemma textual_to_string: "textual v \<Longrightarrow> \<exists>s. to_string f v = Inr s"
  and textual_join: "list_all textual xs \<Longrightarrow> \<exists>s. join f xs = Inr s"
proof (induction f v and f xs rule: to_string_join.induct)
  case (9 f x xs)
  from "9.prems" have tx: "textual x" and txs: "list_all textual xs"
    by simp_all
  obtain s where s: "(if x = JUndefined \<or> x = JNull then Inr [] else to_string f x) = Inr s"
    using "9.IH"(1) tx by (cases "x = JUndefined \<or> x = JNull") auto
  have unfold: "join f (x # xs) =
     (case xs of [] \<Rightarrow> Inr s
      | y # ys \<Rightarrow> (case join f xs of Inl e \<Rightarrow> Inl e | Inr r \<Rightarrow> Inr (s @ '','' @ r)))"
    using s by (simp del: to_string.simps)
  show ?case
  proof (cases xs)
    case Nil
    then show ?thesis
      unfolding unfold by simp
  next
    case (Cons y ys)
    then obtain r where "join f xs = Inr r"
      using "9.IH"(2) [OF s Cons] txs by blast
    then show ?thesis
      unfolding unfold using Cons by (simp del: join.simps)
  qed
qed simp_all

lemma textual_text: "textual v \<Longrightarrow> \<exists>s. to_string f v = Inr s"
  by (rule textual_to_string)

lemma read_string_object: "is_string (read tc k) \<Longrightarrow> k \<noteq> ''0'' \<Longrightarrow> \<exists>kvs. tc = JObj kvs"
  by (cases tc) (auto simp: read_def split: if_splits)

lemma get_object_read: "get (JObj kvs) k = Inr (read (JObj kvs) k)"
  by (simp add: read_def)

lemma is_string_elim: "is_string v \<Longrightarrow> \<exists>s. v = JStr s"
  by (cases v) simp_all

lemma is_array_elim: "is_array v \<Longrightarrow> \<exists>xs. v = JArr xs"
  by (cases v) simp_all

lemma is_object_elim: "is_object v \<Longrightarrow> \<exists>kvs. v = JObj kvs"
  by (cases v) simp_all

lemma is_number_elim: "is_number v \<Longrightarrow> \<exists>n. v = JNum n"
  by (cases v) simp_all

lemma well_formed_announce:
  assumes "well_formed tc"
  shows "\<exists>a. announce f tc = Inr a"
proof -
  from assms have d: "is_string (read tc ''description'')" and i: "textual (read tc ''id'')"
    by (simp_all add: well_formed_def)
  obtain kvs where k: "tc = JObj kvs"
    using read_string_object [OF d] by auto
  obtain s where s: "read tc ''description'' = JStr s"
    using is_string_elim [OF d] by blast
  obtain si where si: "to_string f (read tc ''id'') = Inr si"
    using textual_text [OF i] by blast
  show ?thesis
    using s si unfolding k announce_def get_object_read by simp
qed

lemma well_formed_inputText:
  assumes "well_formed tc"
  shows "\<exists>txt. inputText f tc = Inr txt"
proof -
  from assms have d: "is_string (read tc ''description'')"
    by (simp add: well_formed_def)
  obtain kvs where k: "tc = JObj kvs"
    using read_string_object [OF d] by auto
  from d have "textual (read tc ''description'')"
    by (cases "read tc ''description''") simp_all
  then obtain s4 where "to_string f (read tc ''description'') = Inr s4"
    using textual_text by blast
  moreover obtain s1 where "to_string f (read tc ''id'') = Inr s1"
    using textual_text assms by (auto simp: well_formed_def)
  moreover obtain s2 where "to_string f (read tc ''module'') = Inr s2"
    using textual_text assms by (auto simp: well_formed_def)
  moreover obtain s3 where "to_string f (read tc ''title'') = Inr s3"
    using textual_text assms by (auto simp: well_formed_def)
  moreover obtain s5 where "to_string f (read tc ''steps'') = Inr s5"
    using textual_text assms by (auto simp: well_formed_def)
  moreover obtain s6 where "to_string f (read tc ''expectedResults'') = Inr s6"
    using textual_text assms by (auto simp: well_formed_def)
  ultimately show ?thesis
    unfolding k inputText_def get_object_read by simp
qed

lemma status_object: "read d ''status'' = JNum (Fin 200) \<Longrightarrow> \<exists>kvs. d = JObj kvs"
  by (cases d) (auto simp: read_def split: if_splits)

lemma conforms_check_status:
  assumes "conforms d"
  shows "check_status f d = Inr ()"
proof -
  from assms have st: "read d ''status'' = JNum (Fin 200)"
    and m: "optional is_string (read d ''message'')"
    by (simp_all add: conforms_def)
  obtain kvs where k: "d = JObj kvs"
    using status_object [OF st] by blast
  from m have "\<exists>s. to_string f (js_or (read d ''message'') (JStr ''No message'')) = Inr s"
    by (cases "read d ''message''") (simp_all add: optional_def js_or_def)
  then show ?thesis
    using st unfolding k check_status_def get_object_read by auto
qed

lemma optional_number_cost:
  "optional is_number c \<Longrightarrow> \<exists>n. toFixed (js_or c (JNum (Fin 0))) = Inr n"
  by (cases c) (simp_all add: optional_def js_or_def)

lemma optional_number_text:
  "optional is_number t \<Longrightarrow> \<exists>s. to_string f (js_or t (JNum (Fin 0))) = Inr s"
  by (cases t) (simp_all add: optional_def js_or_def)

lemma usage_tokens:
  assumes "optional usage_ok u"
  shows "\<exists>tt. get_opt u ''total_tokens'' = Inr tt \<and> optional is_number tt"
proof (cases "u = JUndefined")
  case True
  then show ?thesis by (simp add: get_opt_def optional_def)
next
  case False
  with assms have "usage_ok u" by (simp add: optional_def)
  then obtain kvs where "u = JObj kvs" "optional is_number (read u ''total_tokens'')"
    using is_object_elim by (auto simp: usage_ok_def)
  then show ?thesis
    by (simp add: get_opt_def read_def)
qed

lemma conforms_read_embedding:
  assumes "conforms d"
  shows "\<exists>e. read_embedding f d = Inr e"
proof -
  from assms have st: "read d ''status'' = JNum (Fin 200)"
    by (simp add: conforms_def)
  obtain kvs where k: "d = JObj kvs"
    using status_object [OF st] by blast
  have g: "\<And>j. get d j = Inr (read d j)"
    by (simp add: k read_def)
  from assms obtain xs where xs: "read d ''data'' = JArr xs"
    using is_array_elim by (auto simp: conforms_def)
  from assms xs obtain ekvs where e: "read (JArr xs) ''0'' = JObj ekvs"
    using is_object_elim by (auto simp: conforms_def)
  from assms xs e obtain vs where v: "read (JObj ekvs) ''embedding'' = JArr vs"
    using is_array_elim by (auto simp: conforms_def)
  have g0: "get (JArr xs) ''0'' = Inr (JObj ekvs)"
    using e by (simp add: read_def)
  have gv: "get (JObj ekvs) ''embedding'' = Inr (JArr vs)"
    using v by (simp add: read_def)
  from assms obtain m where m: "read d ''model'' = JStr m"
    using is_string_elim by (auto simp: conforms_def)
  from assms obtain n where n: "toFixed (js_or (read d ''cost'') (JNum (Fin 0))) = Inr n"
    using optional_number_cost by (auto simp: conforms_def)
  from assms obtain tt where tt: "get_opt (read d ''usage'') ''total_tokens'' = Inr tt"
    "optional is_number tt"
    using usage_tokens by (auto simp: conforms_def)
  obtain s where s: "to_string f (js_or tt (JNum (Fin 0))) = Inr s"
    using optional_number_text [OF tt(2)] by blast
  have len: "get_opt (JArr vs) ''length'' = Inr (JNum (Fin (of_nat (length vs))))"
    by (simp add: get_opt_def)
  have "\<exists>x. to_string f (js_or (JNum (Fin (of_nat (length vs)))) (JStr ''Unknown'')) = Inr x"
    by (auto simp: js_or_def)
  then obtain x where
    lt: "to_string f (js_or (JNum (Fin (of_nat (length vs)))) (JStr ''Unknown'')) = Inr x"
    by blast
  show ?thesis
    by (simp add: read_embedding_def g xs g0 gv m n tt(1) s len lt del: get.simps)
qed

lemma conforming_record_stored:
  assumes "well_formed (fst r)" and "call_succeeds f r" and "accepts_write f r"
  shows "stored f r"
proof -
  obtain a where a: "announce f (fst r) = Inr a"
    using well_formed_announce [OF assms(1)] by blast
  from assms(2) obtain input resp where t: "inputText f (fst r) = Inr input"
    and p: "post (snd r) input = Inr resp" and c: "conforms (data resp)"
    by (auto simp: call_succeeds_def split: sum.splits)
  obtain e where "read_embedding f (data resp) = Inr e"
    using conforms_read_embedding [OF c] by blast
  then have e: "embed f (snd r) (fst r) = Inr e"
    using t p conforms_check_status [OF c] by (simp add: embed_def)
  with a assms(3) show ?thesis
    by (simp add: stored_def passes_embedding_def reaches_try_def write_succeeds_def
        accepts_write_def document_def)
qed

lemma well_formed_tc1: "well_formed tc1"
  by (simp add: well_formed_def read_def tc1_def)

lemma well_formed_tc2: "well_formed tc2"
  by (simp add: well_formed_def read_def tc2_def)

lemma conforms_body_ok: "conforms body_ok"
  by (simp add: conforms_def read_def body_ok_def optional_def usage_ok_def)

lemma call_succeeds_tc1: "call_succeeds f (tc1, w_ok)"
  by (simp add: call_succeeds_def inputText_tc1 w_ok_def conforms_body_ok)

lemma call_succeeds_tc2: "call_succeeds f (tc2, w_ok)"
  by (simp add: call_succeeds_def inputText_def tc2_def w_ok_def conforms_body_ok)

lemma accepts_write_w_ok: "accepts_write f (tc, w_ok)"
  by (simp add: accepts_write_def w_ok_write split: option.splits)

lemma two_stored_run:
  "main f [(tc1, w_ok), (tc2, w_ok)] =
     (Summary (Fin (2 / 10000)) (JNum (Fin 84)) 2 (Fin (1 / 10000)),
      [build_doc tc1 e_ok (now w_ok), build_doc tc2 e_ok (now w_ok)])"
  by (simp add: main_def process_record_def try_block_def announce_tc1 announce_tc2
      embed_tc1_ok embed_tc2_ok w_ok_write initial_def e_ok_def)

text \<open>
  C4, as stated, fails: the claim is that N documents are stored whenever every embedding
  call and every store write of a non-empty batch succeeds. In the first batch the call is
  answered with 200, a body of status 200 and an embedding, and the store accepts every
  document; the body's \<^verbatim>\<open>cost\<close> is a string, \<^verbatim>\<open>cost.toFixed\<close> of line 92 throws, and
  the run completes with a divisor of 1 and no document. In the second batch, with the same
  API and store as in the sample run, the second record has no \<^verbatim>\<open>description\<close>: line 48
  throws, one document of two is stored and no summary is reported.
\<close>

theorem call_and_write_succeed_counterexample:
  "post w_string_cost
     (''\<newline>          ID: TC-1'' @
      ''\<newline>          Module: Login'' @
      ''\<newline>          Title: Valid login'' @
      ''\<newline>          Description: User logs in'' @
      ''\<newline>          Steps: open,submit'' @
      ''\<newline>          Expected Result: Dashboard'' @
      ''\<newline>        '') = Inr \<lparr>status = 200, data = body_string_cost\<rparr> \<and>
   get body_string_cost ''status'' = Inr (JNum (Fin 200)) \<and>
   get body_string_cost ''cost'' = Inr (JStr ''0.5'') \<and>
   main number_text [(tc1, w_string_cost)] = (Summary (Fin 0) (JNum (Fin 0)) 1 (Fin 0), []) \<and>
   main number_text [(tc1, w_ok), (tc_no_description, w_ok)] =
     (Failed TypeError, [build_doc tc1 e_ok (now w_ok)])"
proof -
  have "embed number_text w_string_cost tc1 = Inl TypeError"
    by (simp add: embed_def inputText_tc1 check_status_def read_embedding_def js_or_def
        get_opt_def w_ok_def w_string_cost_def body_string_cost_def)
  then have "main number_text [(tc1, w_string_cost)] =
      (Summary (Fin 0) (JNum (Fin 0)) 1 (Fin 0), [])"
    by (simp add: main_def process_record_def try_block_def announce_tc1 initial_def)
  moreover have "announce number_text tc_no_description = Inl TypeError"
    by (simp add: announce_def tc_no_description_def)
  then have "main number_text [(tc1, w_ok), (tc_no_description, w_ok)] =
     (Failed TypeError, [build_doc tc1 e_ok (now w_ok)])"
    by (simp add: main_def process_record_def try_block_def announce_tc1 embed_tc1_ok
        w_ok_write initial_def e_ok_def)
  ultimately show ?thesis
    by (simp add: w_string_cost_def w_ok_def body_string_cost_def)
qed

text \<open>
  C4, amended: for every non-empty batch of N records in which every test case is well
  formed, every embedding call is answered with a 2xx status and a body that conforms to the
  interface of the API, and every store write is accepted, the run completes with a summary
  whose divisor is N (the average of a finite total cost being that cost divided by N), and
  the collection has received N documents, the i-th being the document of the i-th record
  (so one for each record and none twice).
\<close>

theorem conforming_batch_stores_all:
  assumes "testcases \<noteq> []"
    and "\<forall>r\<in>set testcases. well_formed (fst r) \<and> call_succeeds f r \<and> accepts_write f r"
  shows "\<exists>c t avg. fst (main f testcases) = Summary c t (length testcases) avg \<and>
             (\<forall>a. c = Fin a \<longrightarrow> avg = Fin (a / of_nat (length testcases))) \<and>
             length (snd (main f testcases)) = length testcases \<and>
             map Some (snd (main f testcases)) = map (document f) testcases"
proof -
  have "\<forall>r\<in>set testcases. stored f r"
    using assms(2) conforming_record_stored by blast
  then obtain t where t: "loop f testcases initial = Inr t"
    "map Some (collection t) = map Some (collection initial) @ map (document f) testcases"
    using loop_all_stored [OF _ primitive_initial] by blast
  from t(2) have m: "map Some (collection t) = map (document f) testcases"
    by (simp add: initial_def)
  then have "length (map Some (collection t)) = length (map (document f) testcases)"
    by simp
  then have l: "length (collection t) = length testcases"
    by simp
  have "0 < length testcases"
    using assms(1) by simp
  then have "\<forall>a. totalCost t = Fin a \<longrightarrow>
      div_by_length (totalCost t) (length testcases) = Fin (a / of_nat (length testcases))"
    by simp
  with t(1) m l show ?thesis
    by (simp add: main_def)
qed

text \<open>C4, amended, on a batch of two records that are both stored.\<close>

theorem conforming_batch_stores_all_witness:
  "[(tc1, w_ok), (tc2, w_ok)] \<noteq> [] \<and>
   well_formed tc1 \<and> call_succeeds number_text (tc1, w_ok) \<and>
   accepts_write number_text (tc1, w_ok) \<and>
   well_formed tc2 \<and> call_succeeds number_text (tc2, w_ok) \<and>
   accepts_write number_text (tc2, w_ok) \<and>
   main number_text [(tc1, w_ok), (tc2, w_ok)] =
     (Summary (Fin (2 / 10000)) (JNum (Fin 84)) 2 (Fin (1 / 10000)),
      [build_doc tc1 e_ok (now w_ok), build_doc tc2 e_ok (now w_ok)]) \<and>
   length (snd (main number_text [(tc1, w_ok), (tc2, w_ok)])) = 2 \<and>
   map Some (snd (main number_text [(tc1, w_ok), (tc2, w_ok)])) =
     [document number_text (tc1, w_ok), document number_text (tc2, w_ok)]"
proof -
  have h1: "[(tc1, w_ok), (tc2, w_ok)] \<noteq> []"
    by simp
  have h2: "\<forall>r\<in>set [(tc1, w_ok), (tc2, w_ok)].
      well_formed (fst r) \<and> call_succeeds number_text r \<and> accepts_write number_text r"
    by (simp add: well_formed_tc1 well_formed_tc2 call_succeeds_tc1 call_succeeds_tc2
        accepts_write_w_ok)
  from conforming_batch_stores_all [OF h1 h2]
  have "length (snd (main number_text [(tc1, w_ok), (tc2, w_ok)])) = 2"
    and "map Some (snd (main number_text [(tc1, w_ok), (tc2, w_ok)])) =
     [document number_text (tc1, w_ok), document number_text (tc2, w_ok)]"
    by auto
  then show ?thesis
    using two_stored_run [of number_text]
    by (simp add: well_formed_tc1 well_formed_tc2 call_succeeds_tc1 call_succeeds_tc2
        accepts_write_w_ok)
qed

subsection \<open>C5: a failure and the records after it\<close>

lemma loop_contributions:
  "\<exists>cs ks ds oc. \<forall>s. primitive (totalTokens s) \<longrightarrow>
     loop f rs s =
       (let t = s\<lparr>totalCost := foldl num_add (totalCost s) cs,
                   totalTokens := foldl (add_tokens f) (totalTokens s) ks,
                   collection := collection s @ ds\<rparr>
        in case oc of None \<Rightarrow> Inr t | Some err \<Rightarrow> Inl (err, t))"
proof (induction rs)
  case Nil
  have "\<forall>s. primitive (totalTokens s) \<longrightarrow>
     loop f [] s =
       (let t = s\<lparr>totalCost := foldl num_add (totalCost s) [],
                   totalTokens := foldl (add_tokens f) (totalTokens s) [],
                   collection := collection s @ []\<rparr>
        in case None of None \<Rightarrow> Inr t | Some err \<Rightarrow> Inl (err, t))"
    by simp
  then show ?case by blast
next
  case (Cons r rs)
  obtain tc w where r: "r = (tc, w)"
    by (cases r)
  from Cons.IH obtain cs ks ds oc where IH: "\<And>s. primitive (totalTokens s) \<Longrightarrow>
     loop f rs s =
       (let t = s\<lparr>totalCost := foldl num_add (totalCost s) cs,
                   totalTokens := foldl (add_tokens f) (totalTokens s) ks,
                   collection := collection s @ ds\<rparr>
        in case oc of None \<Rightarrow> Inr t | Some err \<Rightarrow> Inl (err, t))"
    by blast
  show ?case
  proof (cases "announce f tc")
    case (Inl err)
    have "\<forall>s. primitive (totalTokens s) \<longrightarrow>
     loop f (r # rs) s =
       (let t = s\<lparr>totalCost := foldl num_add (totalCost s) [],
                   totalTokens := foldl (add_tokens f) (totalTokens s) [],
                   collection := collection s @ []\<rparr>
        in case Some err of None \<Rightarrow> Inr t | Some err \<Rightarrow> Inl (err, t))"
      using process_record_leaves [OF Inl] r by simp
    then show ?thesis by blast
  next
    case a: (Inr a)
    show ?thesis
    proof (cases "embed f w tc")
      case (Inl err)
      have "\<forall>s. primitive (totalTokens s) \<longrightarrow>
       loop f (r # rs) s =
       (let t = s\<lparr>totalCost := foldl num_add (totalCost s) cs,
                   totalTokens := foldl (add_tokens f) (totalTokens s) ks,
                   collection := collection s @ ds\<rparr>
        in case oc of None \<Rightarrow> Inr t | Some err \<Rightarrow> Inl (err, t))"
        using process_record_skips [OF a Inl] IH r by simp
      then show ?thesis by blast
    next
      case (Inr e)
      let ?d = "case insertOne w (build_doc tc e (now w)) of
                     Inl err \<Rightarrow> [] | Inr i \<Rightarrow> [build_doc tc e (now w)]"
      have "\<forall>s. primitive (totalTokens s) \<longrightarrow>
       loop f (r # rs) s =
       (let t = s\<lparr>totalCost := foldl num_add (totalCost s) (cost e # cs),
                   totalTokens := foldl (add_tokens f) (totalTokens s) (tokens e # ks),
                   collection := collection s @ (?d @ ds)\<rparr>
        in case oc of None \<Rightarrow> Inr t | Some err \<Rightarrow> Inl (err, t))"
      proof (intro allI impI)
        fix s :: state
        assume p: "primitive (totalTokens s)"
        let ?s' = "s\<lparr>totalCost := num_add (totalCost s) (cost e),
                totalTokens := add_tokens f (totalTokens s) (tokens e),
                collection := collection s @ ?d\<rparr>"
        have "process_record f r s = Inr ?s'" and "primitive (totalTokens ?s')"
          using process_record_spends [OF a Inr p] r by simp_all
        then show "loop f (r # rs) s =
       (let t = s\<lparr>totalCost := foldl num_add (totalCost s) (cost e # cs),
                   totalTokens := foldl (add_tokens f) (totalTokens s) (tokens e # ks),
                   collection := collection s @ (?d @ ds)\<rparr>
        in case oc of None \<Rightarrow> Inr t | Some err \<Rightarrow> Inl (err, t))"
          using IH [of ?s'] by simp
      qed
      then show ?thesis by blast
    qed
  qed
qed

lemma stored_count:
  assumes "loop f rs s = Inr t" and "primitive (totalTokens s)"
  shows "length (collection t) = length (collection s) + length (filter (stored f) rs)"
  using assms
proof (induction rs arbitrary: s)
  case Nil
  then show ?case by simp
next
  case (Cons r rs)
  obtain tc w where r: "r = (tc, w)"
    by (cases r)
  from Cons.prems(1) r obtain a where a: "announce f tc = Inr a"
    by (cases "announce f tc") (simp_all add: process_record_def)
  show ?case
  proof (cases "embed f w tc")
    case (Inl err)
    have "\<not> stored f r"
      using Inl r by (simp add: stored_def passes_embedding_def)
    moreover have "loop f rs s = Inr t"
      using Cons.prems(1) process_record_skips [OF a Inl] r by simp
    ultimately show ?thesis
      using Cons.IH Cons.prems(2) by simp
  next
    case (Inr e)
    let ?d = "case insertOne w (build_doc tc e (now w)) of
                     Inl err \<Rightarrow> [] | Inr i \<Rightarrow> [build_doc tc e (now w)]"
    let ?s' = "s\<lparr>totalCost := num_add (totalCost s) (cost e),
                totalTokens := add_tokens f (totalTokens s) (tokens e),
                collection := collection s @ ?d\<rparr>"
    have step: "process_record f r s = Inr ?s'" and p: "primitive (totalTokens ?s')"
      using process_record_spends [OF a Inr Cons.prems(2)] r by simp_all
    then have "loop f rs ?s' = Inr t"
      using Cons.prems(1) by simp
    then have "length (collection t) = length (collection ?s') + length (filter (stored f) rs)"
      using Cons.IH p by blast
    moreover have "length ?d = (if stored f r then 1 else 0)"
      using a Inr r
      by (cases "insertOne w (build_doc tc e (now w))")
        (simp_all add: stored_def passes_embedding_def reaches_try_def write_succeeds_def
          document_def)
    ultimately show ?thesis
      by simp
  qed
qed

text \<open>
  C5, as stated, fails in its last part: the claim is that in a mixed batch the number of
  stored documents equals the number of records that passed the embedding stage, failures
  being of the embedding or of the write. In this batch of three the first response is
  rejected, the second record passes the embedding stage and its write fails, the third is
  stored: two records passed the embedding stage, the run completes, one document is stored.
\<close>

theorem stored_count_counterexample:
  "length (filter (passes_embedding number_text)
     [(tc1, w_rejected), (tc1, w_write_fails), (tc2, w_ok)]) = 2 \<and>
   fst (main number_text [(tc1, w_rejected), (tc1, w_write_fails), (tc2, w_ok)]) =
     Summary (Fin (2 / 10000)) (JNum (Fin 84)) 3 (Fin (2 / 30000)) \<and>
   length (snd (main number_text [(tc1, w_rejected), (tc1, w_write_fails), (tc2, w_ok)])) = 1"
  by (simp add: main_def mixed_run passes_write_fails not_passes_rejected passes_tc2
      del: loop.simps)

text \<open>
  C5, amended: for every batch and every record i that has reached its \<^verbatim>\<open>try\<close>, whatever
  fails there (embedding or write) is caught and the loop goes on with record i+1. What the
  records after i do does not depend on the values record i left behind: the costs and the
  token counts they add, one after the other, the documents they store and whether the loop
  is left are fixed by these records and their worlds alone, from any values of the totals
  and any collection. And when the loop completes, the number of documents stored equals the
  number of records that passed the embedding stage and whose write succeeded.
\<close>

theorem failure_isolation:
  assumes "primitive (totalTokens s)" and "reaches_try f r"
  shows "(\<exists>s'. process_record f r s = Inr s' \<and> primitive (totalTokens s') \<and>
              loop f (r # rest) s = loop f rest s') \<and>
         (\<exists>cs ks ds oc. \<forall>s1. primitive (totalTokens s1) \<longrightarrow>
            loop f rest s1 =
              (let t = s1\<lparr>totalCost := foldl num_add (totalCost s1) cs,
                           totalTokens := foldl (add_tokens f) (totalTokens s1) ks,
                           collection := collection s1 @ ds\<rparr>
               in case oc of None \<Rightarrow> Inr t | Some err \<Rightarrow> Inl (err, t))) \<and>
         (\<forall>t. loop f (r # rest) s = Inr t \<longrightarrow>
            length (collection t) =
            length (collection s) + length (filter (stored f) (r # rest)))"
proof (intro conjI)
  obtain s' where "process_record f r s = Inr s'" "primitive (totalTokens s')"
    using reaches_try_caught [OF assms(2,1)] by blast
  then show "\<exists>s'. process_record f r s = Inr s' \<and> primitive (totalTokens s') \<and>
              loop f (r # rest) s = loop f rest s'"
    by simp
  show "\<exists>cs ks ds oc. \<forall>s1. primitive (totalTokens s1) \<longrightarrow>
            loop f rest s1 =
              (let t = s1\<lparr>totalCost := foldl num_add (totalCost s1) cs,
                           totalTokens := foldl (add_tokens f) (totalTokens s1) ks,
                           collection := collection s1 @ ds\<rparr>
               in case oc of None \<Rightarrow> Inr t | Some err \<Rightarrow> Inl (err, t))"
    by (rule loop_contributions)
  show "\<forall>t. loop f (r # rest) s = Inr t \<longrightarrow>
            length (collection t) =
            length (collection s) + length (filter (stored f) (r # rest))"
    using stored_count [OF _ assms(1)] by blast
qed

text \<open>
  C5, amended, on a batch of two: the write of the first record fails, the second is stored.
\<close>

theorem failure_isolation_witness:
  "primitive (totalTokens initial) \<and> reaches_try number_text (tc1, w_write_fails) \<and>
   loop number_text [(tc1, w_write_fails), (tc2, w_ok)] initial =
     loop number_text [(tc2, w_ok)]
       \<lparr>totalCost = Fin (1 / 10000), totalTokens = JNum (Fin 42), collection = []\<rparr> \<and>
   (\<exists>cs ks ds oc. \<forall>s1. primitive (totalTokens s1) \<longrightarrow>
      loop number_text [(tc2, w_ok)] s1 =
        (let t = s1\<lparr>totalCost := foldl num_add (totalCost s1) cs,
                     totalTokens := foldl (add_tokens number_text) (totalTokens s1) ks,
                     collection := collection s1 @ ds\<rparr>
         in case oc of None \<Rightarrow> Inr t | Some err \<Rightarrow> Inl (err, t))) \<and>
   length (collection (state_of (loop number_text [(tc1, w_write_fails), (tc2, w_ok)] initial)))
     = length (collection initial) +
       length (filter (stored number_text) [(tc1, w_write_fails), (tc2, w_ok)])"
proof -
  have run: "loop number_text [(tc1, w_write_fails), (tc2, w_ok)] initial =
     Inr \<lparr>totalCost = Fin (2 / 10000), totalTokens = JNum (Fin 84),
        collection = [build_doc tc2 e_ok (now w_ok)]\<rparr>"
    by (simp add: process_record_def try_block_def announce_tc1 announce_tc2
        embed_tc1_write_fails embed_tc2_ok w_ok_write w_write_fails_write initial_def e_ok_def)
  have step: "process_record number_text (tc1, w_write_fails) initial =
     Inr \<lparr>totalCost = Fin (1 / 10000), totalTokens = JNum (Fin 42), collection = []\<rparr>"
    by (simp add: process_record_def try_block_def announce_tc1
        embed_tc1_write_fails w_write_fails_write initial_def e_ok_def)
  note th = failure_isolation [OF primitive_initial reaches_write_fails,
      of number_text "[(tc2, w_ok)]"]
  from th have "\<exists>cs ks ds oc. \<forall>s1. primitive (totalTokens s1) \<longrightarrow>
      loop number_text [(tc2, w_ok)] s1 =
        (let t = s1\<lparr>totalCost := foldl num_add (totalCost s1) cs,
                     totalTokens := foldl (add_tokens number_text) (totalTokens s1) ks,
                     collection := collection s1 @ ds\<rparr>
         in case oc of None \<Rightarrow> Inr t | Some err \<Rightarrow> Inl (err, t))"
    by blast
  moreover from th run have "length (collection (state_of (loop number_text [(tc1, w_write_fails), (tc2, w_ok)] initial)))
     = length (collection initial) +
       length (filter (stored number_text) [(tc1, w_write_fails), (tc2, w_ok)])"
    by simp
  moreover from th step have "loop number_text [(tc1, w_write_fails), (tc2, w_ok)] initial =
     loop number_text [(tc2, w_ok)]
       \<lparr>totalCost = Fin (1 / 10000), totalTokens = JNum (Fin 42), collection = []\<rparr>"
    by simp
  ultimately show ?thesis
    using primitive_initial reaches_write_fails by blast
qed

subsection \<open>C6: a status other than 200 in the body\<close>

lemma check_status_rejects:
  assumes "get d ''status'' \<noteq> Inr (JNum (Fin 200))"
  shows "\<exists>err. check_status f d = Inl err"
proof (cases "get d ''status''")
  case (Inl err)
  then show ?thesis by (simp add: check_status_def)
next
  case (Inr st)
  with assms have ne: "st \<noteq> JNum (Fin 200)" by simp
  show ?thesis
    using Inr ne
    by (cases "to_string f st"; cases "get d ''message''";
        simp add: check_status_def and_then_def split: sum.splits)
qed

text \<open>
  C6: for every record whose call to the embedding API is answered with a 2xx status and a
  body whose \<^verbatim>\<open>status\<close> is not the number 200 (another value, or none), the record is a
  failure: the variables are as before, so that nothing is stored and nothing is added to
  the totals, and the loop goes on with the next record.
\<close>

theorem body_status_not_200_is_skipped:
  assumes "announce f tc = Inr a"
    and "inputText f tc = Inr txt"
    and "post w txt = Inr resp"
    and "200 \<le> status resp" and "status resp < 300"
    and "get (data resp) ''status'' \<noteq> Inr (JNum (Fin 200))"
  shows "process_record f (tc, w) s = Inr s \<and>
         loop f ((tc, w) # rest) s = loop f rest s \<and>
         \<not> stored f (tc, w)"
proof -
  obtain err where "check_status f (data resp) = Inl err"
    using check_status_rejects [OF assms(6)] by blast
  then have e: "embed f w tc = Inl err"
    using assms(2,3) by (simp add: embed_def)
  then have "process_record f (tc, w) s = Inr s"
    using process_record_skips [OF assms(1)] by blast
  moreover have "\<not> stored f (tc, w)"
    using e by (simp add: stored_def passes_embedding_def)
  ultimately show ?thesis by simp
qed

text \<open>C6 on the sample record, answered with 200 and a body of status 401.\<close>

theorem body_status_not_200_is_skipped_witness:
  "announce number_text tc1 = Inr ''Processing: TC-1 - User logs in...'' \<and>
   post w_rejected
     (''\<newline>          ID: TC-1'' @
      ''\<newline>          Module: Login'' @
      ''\<newline>          Title: Valid login'' @
      ''\<newline>          Description: User logs in'' @
      ''\<newline>          Steps: open,submit'' @
      ''\<newline>          Expected Result: Dashboard'' @
      ''\<newline>        '') = Inr \<lparr>status = 200, data = body_rejected\<rparr> \<and>
   get body_rejected ''status'' = Inr (JNum (Fin 401)) \<and>
   process_record number_text (tc1, w_rejected) initial = Inr initial \<and>
   loop number_text [(tc1, w_rejected), (tc2, w_ok)] initial =
     loop number_text [(tc2, w_ok)] initial \<and>
   \<not> stored number_text (tc1, w_rejected)"
proof -
  have p: "post w_rejected
     (''\<newline>          ID: TC-1'' @
      ''\<newline>          Module: Login'' @
      ''\<newline>          Title: Valid login'' @
      ''\<newline>          Description: User logs in'' @
      ''\<newline>          Steps: open,submit'' @
      ''\<newline>          Expected Result: Dashboard'' @
      ''\<newline>        '') = Inr \<lparr>status = 200, data = body_rejected\<rparr>"
    by (simp add: w_rejected_def w_ok_def)
  have g: "get body_rejected ''status'' = Inr (JNum (Fin 401))"
    by (simp add: body_rejected_def)
  have h4: "200 \<le> status \<lparr>status = 200, data = body_rejected\<rparr>"
    and h5: "status \<lparr>status = 200, data = body_rejected\<rparr> < 300"
    and h6: "get (data \<lparr>status = 200, data = body_rejected\<rparr>) ''status'' \<noteq> Inr (JNum (Fin 200))"
    by (simp_all add: g)
  show ?thesis
    using body_status_not_200_is_skipped [OF announce_tc1 inputText_tc1 p h4 h5 h6,
        of number_text initial "[(tc2, w_ok)]"] p g announce_tc1 [of number_text]
    by blast
qed

subsection \<open>C7: the order of the fields in the prompt\<close>

text \<open>
  C7: for every test case whose six properties convert to text, the prompt consists of the
  texts of \<^verbatim>\<open>id\<close>, \<^verbatim>\<open>module\<close>, \<^verbatim>\<open>title\<close>, \<^verbatim>\<open>description\<close>, \<^verbatim>\<open>steps\<close> and
  \<^verbatim>\<open>expectedResults\<close> in this order, each after its label, and this prompt is what is
  posted to the embedding API.
\<close>

theorem prompt_field_order:
  assumes "get tc ''id'' = Inr v1" and "to_string f v1 = Inr s1"
    and "get tc ''module'' = Inr v2" and "to_string f v2 = Inr s2"
    and "get tc ''title'' = Inr v3" and "to_string f v3 = Inr s3"
    and "get tc ''description'' = Inr v4" and "to_string f v4 = Inr s4"
    and "get tc ''steps'' = Inr v5" and "to_string f v5 = Inr s5"
    and "get tc ''expectedResults'' = Inr v6" and "to_string f v6 = Inr s6"
  shows "inputText f tc = Inr
           (''\<newline>          ID: '' @ s1 @
            ''\<newline>          Module: '' @ s2 @
            ''\<newline>          Title: '' @ s3 @
            ''\<newline>          Description: '' @ s4 @
            ''\<newline>          Steps: '' @ s5 @
            ''\<newline>          Expected Result: '' @ s6 @
            ''\<newline>        '') \<and>
         embed f w tc =
           and_then (post w
             (''\<newline>          ID: '' @ s1 @
              ''\<newline>          Module: '' @ s2 @
              ''\<newline>          Title: '' @ s3 @
              ''\<newline>          Description: '' @ s4 @
              ''\<newline>          Steps: '' @ s5 @
              ''\<newline>          Expected Result: '' @ s6 @
              ''\<newline>        ''))
             (\<lambda>r. and_then (check_status f (data r)) (\<lambda>_. read_embedding f (data r)))"
  using assms by (simp add: inputText_def embed_def)

text \<open>C7 on the sample record, whose \<^verbatim>\<open>steps\<close> are a list.\<close>

theorem prompt_field_order_witness:
  "get tc1 ''id'' = Inr (JStr ''TC-1'') \<and>
   get tc1 ''module'' = Inr (JStr ''Login'') \<and>
   get tc1 ''title'' = Inr (JStr ''Valid login'') \<and>
   get tc1 ''description'' = Inr (JStr ''User logs in'') \<and>
   get tc1 ''steps'' = Inr (JArr [JStr ''open'', JStr ''submit'']) \<and>
   to_string number_text (JArr [JStr ''open'', JStr ''submit'']) = Inr ''open,submit'' \<and>
   get tc1 ''expectedResults'' = Inr (JStr ''Dashboard'') \<and>
   inputText number_text tc1 = Inr
     (''\<newline>          ID: TC-1'' @
      ''\<newline>          Module: Login'' @
      ''\<newline>          Title: Valid login'' @
      ''\<newline>          Description: User logs in'' @
      ''\<newline>          Steps: open,submit'' @
      ''\<newline>          Expected Result: Dashboard'' @
      ''\<newline>        '')"
proof -
  have g: "get tc1 ''id'' = Inr (JStr ''TC-1'')"
    "get tc1 ''module'' = Inr (JStr ''Login'')"
    "get tc1 ''title'' = Inr (JStr ''Valid login'')"
    "get tc1 ''description'' = Inr (JStr ''User logs in'')"
    "get tc1 ''steps'' = Inr (JArr [JStr ''open'', JStr ''submit''])"
    "get tc1 ''expectedResults'' = Inr (JStr ''Dashboard'')"
    by (simp_all add: tc1_def)
  have t: "to_string number_text (JStr ''TC-1'') = Inr ''TC-1''"
    "to_string number_text (JStr ''Login'') = Inr ''Login''"
    "to_string number_text (JStr ''Valid login'') = Inr ''Valid login''"
    "to_string number_text (JStr ''User logs in'') = Inr ''User logs in''"
    "to_string number_text (JArr [JStr ''open'', JStr ''submit'']) = Inr ''open,submit''"
    "to_string number_text (JStr ''Dashboard'') = Inr ''Dashboard''"
    by simp_all
  show ?thesis
    using prompt_field_order [OF g(1) t(1) g(2) t(2) g(3) t(3) g(4) t(4) g(5) t(5) g(6) t(6),
        of w_ok] g t(5)
    by simp
qed

subsection \<open>C8: a response without cost or token count\<close>





subsection \<open>C9: the fields of the stored document\<close>

text \<open>
  C9: whenever a turn of the loop stores a document, the test case is an object and the
  document has, under every key other than \<^verbatim>\<open>embedding\<close>, \<^verbatim>\<open>createdAt\<close> and
  \<^verbatim>\<open>embeddingMetadata\<close>, exactly what the test case has under it (the same value, or
  nothing); under these three keys it has the vector, the date and the metadata of the
  pipeline, whatever the test case had there.
\<close>

theorem stored_document_fields:
  assumes "process_record f (tc, w) s = Inr s'" and "collection s' \<noteq> collection s"
  shows "\<exists>kvs e d. tc = JObj kvs \<and> embed f w tc = Inr e \<and> collection s' = collection s @ [d] \<and>
           (\<forall>k. lookup d k =
              (if k = ''embeddingMetadata'' then
                 Some (Plain (JObj [(''model'', model e), (''cost'', JNum (cost e)),
                                    (''tokens'', tokens e), (''apiSource'', JStr ''testleaf'')]))
               else if k = ''createdAt'' then Some (Date (now w))
               else if k = ''embedding'' then Some (Plain (vector e))
               else map_option Plain (lookup kvs k)))"
proof -
  obtain e where e: "embed f w tc = Inr e"
    "collection s' = collection s @ [build_doc tc e (now w)]"
    using process_record_collection [OF assms] by blast
  from assms(1) obtain a where "announce f tc = Inr a"
    by (cases "announce f tc") (simp_all add: process_record_def)
  then obtain kvs where "tc = JObj kvs"
    using announce_object by blast
  with e show ?thesis
    using build_doc_fields by blast
qed

text \<open>
  C9 on a test case that comes with an \<^verbatim>\<open>embedding\<close> of its own, which is overwritten.
\<close>

theorem stored_document_fields_witness:
  "process_record number_text (tc2, w_ok) initial =
     Inr \<lparr>totalCost = Fin (1 / 10000), totalTokens = JNum (Fin 42),
          collection = [build_doc tc2 e_ok (now w_ok)]\<rparr> \<and>
   lookup (build_doc tc2 e_ok (now w_ok)) ''id'' = Some (Plain (JStr ''TC-2'')) \<and>
   lookup (build_doc tc2 e_ok (now w_ok)) ''description'' = Some (Plain (JStr ''Logout'')) \<and>
   lookup (build_doc tc2 e_ok (now w_ok)) ''module'' = None \<and>
   lookup (build_doc tc2 e_ok (now w_ok)) ''embedding'' =
     Some (Plain (JArr [JNum (Fin 1), JNum (Fin 2)])) \<and>
   lookup (build_doc tc2 e_ok (now w_ok)) ''createdAt'' = Some (Date 1700000000000)"
proof -
  let ?s' = "\<lparr>totalCost = Fin (1 / 10000), totalTokens = JNum (Fin 42),
          collection = [build_doc tc2 e_ok (now w_ok)]\<rparr>"
  have run: "process_record number_text (tc2, w_ok) initial = Inr ?s'"
    by (simp add: process_record_def try_block_def announce_tc2 embed_tc2_ok w_ok_write
        initial_def e_ok_def)
  have ne: "collection ?s' \<noteq> collection initial"
    by (simp add: initial_def)
  obtain kvs e d where k: "tc2 = JObj kvs" and e: "embed number_text w_ok tc2 = Inr e"
    and c: "collection ?s' = collection initial @ [d]"
    and l: "\<And>k. lookup d k =
              (if k = ''embeddingMetadata'' then
                 Some (Plain (JObj [(''model'', model e), (''cost'', JNum (cost e)),
                                    (''tokens'', tokens e), (''apiSource'', JStr ''testleaf'')]))
               else if k = ''createdAt'' then Some (Date (now w_ok))
               else if k = ''embedding'' then Some (Plain (vector e))
               else map_option Plain (lookup kvs k))"
    using stored_document_fields [OF run ne] by blast
  from c have d: "d = build_doc tc2 e_ok (now w_ok)"
    by (simp add: initial_def)
  from e have e': "e = e_ok"
    by (simp add: embed_tc2_ok)
  from k have kvs: "kvs = [(''id'', JStr ''TC-2''), (''description'', JStr ''Logout''),
               (''embedding'', JStr ''stale'')]"
    by (simp add: tc2_def)
  have "lookup d ''id'' = Some (Plain (JStr ''TC-2''))"
    "lookup d ''description'' = Some (Plain (JStr ''Logout''))"
    "lookup d ''module'' = None"
    "lookup d ''embedding'' = Some (Plain (JArr [JNum (Fin 1), JNum (Fin 2)]))"
    "lookup d ''createdAt'' = Some (Date 1700000000000)"
    by (simp_all add: l kvs e' e_ok_def w_ok_def)
  with run d show ?thesis
    by simp
qed

subsection \<open>C10: the totals never decrease\<close>

lemma loop_nonneg_mono:
  assumes "\<forall>r\<in>set rs. charges_nonneg f r"
    and "nonneg (totalCost s)" and "tokens_le (JNum (Fin 0)) (totalTokens s)"
  shows "nonneg (totalCost (state_of (loop f rs s))) \<and>
         tokens_le (JNum (Fin 0)) (totalTokens (state_of (loop f rs s))) \<and>
         num_le (totalCost s) (totalCost (state_of (loop f rs s))) \<and>
         tokens_le (totalTokens s) (totalTokens (state_of (loop f rs s)))"
  using assms
proof (induction rs arbitrary: s)
  case Nil
  then show ?case
    by (simp add: num_le_refl tokens_le_refl)
next
  case (Cons r rs)
  show ?case
  proof (cases "process_record f r s")
    case (Inl err)
    then show ?thesis
      using Cons.prems by (simp add: num_le_refl tokens_le_refl)
  next
    case (Inr s')
    have step: "nonneg (totalCost s') \<and> tokens_le (JNum (Fin 0)) (totalTokens s') \<and>
                num_le (totalCost s) (totalCost s') \<and>
                tokens_le (totalTokens s) (totalTokens s')"
      using process_record_totals [OF Inr]
    proof
      assume "totalCost s' = totalCost s \<and> totalTokens s' = totalTokens s"
      then show ?thesis
        using Cons.prems(2,3) by (simp add: num_le_refl tokens_le_refl)
    next
      assume "\<exists>e. embed f (snd r) (fst r) = Inr e \<and>
              totalCost s' = num_add (totalCost s) (cost e) \<and>
              totalTokens s' = add_tokens f (totalTokens s) (tokens e)"
      then obtain e where e: "embed f (snd r) (fst r) = Inr e"
        "totalCost s' = num_add (totalCost s) (cost e)"
        "totalTokens s' = add_tokens f (totalTokens s) (tokens e)"
        by blast
      from Cons.prems(1) e(1) have "nonneg (cost e)" "tokens_le (JNum (Fin 0)) (tokens e)"
        by (simp_all add: charges_nonneg_def)
      then show ?thesis
        using e(2,3) Cons.prems(2,3) num_add_nonneg add_tokens_nonneg by simp
    qed
    have "\<forall>r\<in>set rs. charges_nonneg f r"
      using Cons.prems(1) by simp
    with step have "nonneg (totalCost (state_of (loop f rs s'))) \<and>
         tokens_le (JNum (Fin 0)) (totalTokens (state_of (loop f rs s'))) \<and>
         num_le (totalCost s') (totalCost (state_of (loop f rs s'))) \<and>
         tokens_le (totalTokens s') (totalTokens (state_of (loop f rs s')))"
      using Cons.IH by blast
    with step Inr show ?thesis
      by (auto intro: num_le_trans tokens_le_trans)
  qed
qed

text \<open>
  C10: the totals start at 0; a turn of the loop leaves them as they are or adds the cost and
  the token count of an accepted response to them, once. So if every accepted response has
  a cost and a token count that are at least 0, then at any point of the loop (after the
  records \<open>xs\<close>) the totals are at least 0, and at any later point (after \<open>xs @ ys\<close>) they
  are at least what they were.
\<close>

theorem totals_nonnegative_and_nondecreasing:
  assumes "\<forall>r\<in>set (xs @ ys). charges_nonneg f r"
  shows "totalCost initial = Fin 0 \<and> totalTokens initial = JNum (Fin 0) \<and>
         nonneg (totalCost (state_of (loop f xs initial))) \<and>
         tokens_le (JNum (Fin 0)) (totalTokens (state_of (loop f xs initial))) \<and>
         num_le (totalCost (state_of (loop f xs initial)))
                (totalCost (state_of (loop f (xs @ ys) initial))) \<and>
         tokens_le (totalTokens (state_of (loop f xs initial)))
                   (totalTokens (state_of (loop f (xs @ ys) initial))) \<and>
         (\<forall>r s s'. process_record f r s = Inr s' \<longrightarrow>
            (totalCost s' = totalCost s \<and> totalTokens s' = totalTokens s) \<or>
            (\<exists>e. embed f (snd r) (fst r) = Inr e \<and>
                 totalCost s' = num_add (totalCost s) (cost e) \<and>
                 totalTokens s' = add_tokens f (totalTokens s) (tokens e)))"
proof -
  have i: "nonneg (totalCost initial)" "tokens_le (JNum (Fin 0)) (totalTokens initial)"
    by (simp_all add: initial_def nonneg_def)
  have x: "\<forall>r\<in>set xs. charges_nonneg f r" and y: "\<forall>r\<in>set ys. charges_nonneg f r"
    using assms by simp_all
  note a = loop_nonneg_mono [OF x i]
  have b: "num_le (totalCost (state_of (loop f xs initial)))
                (totalCost (state_of (loop f (xs @ ys) initial))) \<and>
         tokens_le (totalTokens (state_of (loop f xs initial)))
                   (totalTokens (state_of (loop f (xs @ ys) initial)))"
  proof (cases "loop f xs initial")
    case (Inl p)
    then show ?thesis
      using a by (simp add: loop_append num_le_refl tokens_le_refl)
  next
    case (Inr s1)
    then show ?thesis
      using a loop_nonneg_mono [OF y, of s1] by (simp add: loop_append)
  qed
  from a b process_record_totals show ?thesis
    by (simp add: initial_def)
qed

text \<open>C10 on a batch of two stored records, after the first and after both.\<close>

theorem totals_nonnegative_and_nondecreasing_witness:
  "charges_nonneg number_text (tc1, w_ok) \<and> charges_nonneg number_text (tc2, w_ok) \<and>
   totalCost (state_of (loop number_text [(tc1, w_ok)] initial)) = Fin (1 / 10000) \<and>
   totalCost (state_of (loop number_text ([(tc1, w_ok)] @ [(tc2, w_ok)]) initial)) =
     Fin (2 / 10000) \<and>
   nonneg (Fin (1 / 10000)) \<and>
   num_le (Fin (1 / 10000)) (Fin (2 / 10000)) \<and>
   tokens_le (totalTokens (state_of (loop number_text [(tc1, w_ok)] initial)))
     (totalTokens (state_of (loop number_text ([(tc1, w_ok)] @ [(tc2, w_ok)]) initial)))"
proof -
  have h: "\<forall>r\<in>set ([(tc1, w_ok)] @ [(tc2, w_ok)]). charges_nonneg number_text r"
    by (simp add: charges_tc1 charges_tc2)
  have r1: "loop number_text [(tc1, w_ok)] initial =
     Inr \<lparr>totalCost = Fin (1 / 10000), totalTokens = JNum (Fin 42),
          collection = [build_doc tc1 e_ok (now w_ok)]\<rparr>"
    by (simp add: process_record_def try_block_def announce_tc1 embed_tc1_ok w_ok_write
        initial_def e_ok_def)
  have r2: "loop number_text [(tc1, w_ok), (tc2, w_ok)] initial =
     Inr \<lparr>totalCost = Fin (2 / 10000), totalTokens = JNum (Fin 84),
          collection = [build_doc tc1 e_ok (now w_ok), build_doc tc2 e_ok (now w_ok)]\<rparr>"
    by (simp add: process_record_def try_block_def announce_tc1 announce_tc2 embed_tc1_ok
        embed_tc2_ok w_ok_write initial_def e_ok_def)
  note th = totals_nonnegative_and_nondecreasing [OF h]
  from th have "nonneg (totalCost (state_of (loop number_text [(tc1, w_ok)] initial)))"
    and "num_le (totalCost (state_of (loop number_text [(tc1, w_ok)] initial)))
                (totalCost (state_of (loop number_text ([(tc1, w_ok)] @ [(tc2, w_ok)]) initial)))"
    and "tokens_le (totalTokens (state_of (loop number_text [(tc1, w_ok)] initial)))
     (totalTokens (state_of (loop number_text ([(tc1, w_ok)] @ [(tc2, w_ok)]) initial)))"
    by blast+
  then show ?thesis
    using charges_tc1 [of number_text] charges_tc2 [of number_text]
    by (simp add: r1 r2 del: loop.simps)
qed

end
